theory Spec2Isabelle
  imports Complex_Main "HOL-Library.AList"
begin

section \<open>Python values used by app.py\<close>

text \<open>
  Python integers are \<open>int\<close>.  Strings are \<open>string\<close>.  An exception that leaves a
  function is a value \<open>Inl e\<close> of its result.
\<close>

datatype py_error = ZeroDivisionError | ValueError | KeyError | TypeError | OverflowError

subsection \<open>Floats\<close>

text \<open>
  A Python float is an IEEE double.  A finite double is the rational number it denotes,
  and an operation on doubles is the exact operation followed by the rounding to the
  nearest double, a tie going to the even significand.  \<open>rd\<close> is that rounding for a
  significand of 53 bits and exponents from -1022 (below which the spacing stays that of
  the subnormal numbers) to 1023; where the rounded value reaches \<open>2 ^ 1024\<close>, the
  operation returns an infinity.  The numbers a function receives from outside (the
  properties of a capture, a sample rate, the times of a transcript) are finite doubles.
  The sign of a zero is not kept: nothing that the functions below return depends on it.
\<close>

datatype pyfloat = Fin rat | PosInf | NegInf

instantiation pyfloat :: linorder
begin

fun less_eq_pyfloat :: "pyfloat \<Rightarrow> pyfloat \<Rightarrow> bool" where
  "less_eq_pyfloat NegInf y = True"
| "less_eq_pyfloat (Fin a) NegInf = False"
| "less_eq_pyfloat (Fin a) (Fin b) = (a \<le> b)"
| "less_eq_pyfloat (Fin a) PosInf = True"
| "less_eq_pyfloat PosInf PosInf = True"
| "less_eq_pyfloat PosInf y = False"

definition less_pyfloat :: "pyfloat \<Rightarrow> pyfloat \<Rightarrow> bool" where
  "less_pyfloat x y = (x \<le> y \<and> \<not> y \<le> x)"

instance
proof
  fix x y z :: pyfloat
  show "(x < y) = (x \<le> y \<and> \<not> y \<le> x)" by (rule less_pyfloat_def)
  show "x \<le> x" by (cases x) simp_all
  show "x \<le> y \<Longrightarrow> y \<le> z \<Longrightarrow> x \<le> z" by (cases x; cases y; cases z) simp_all
  show "x \<le> y \<Longrightarrow> y \<le> x \<Longrightarrow> x = y" by (cases x; cases y) simp_all
  show "x \<le> y \<or> y \<le> x" by (cases x; cases y) auto
qed

end

definition round_half_even :: "rat \<Rightarrow> int" where
  "round_half_even q =
     (let f = \<lfloor>q\<rfloor>; r = q - of_int f
      in if r < 1 / 2 then f
         else if 1 / 2 < r then f + 1
         else if even f then f else f + 1)"

text \<open>
  The binary exponent of a positive number: \<open>e\<close> with \<open>2 ^ e \<le> x < 2 ^ (e + 1)\<close>, found
  by halving or doubling, and kept between -1022 and 1024.
\<close>

fun expo_up :: "nat \<Rightarrow> rat \<Rightarrow> int" where
  "expo_up 0 x = 0"
| "expo_up (Suc n) x = (if x < 2 then 0 else expo_up n (x / 2) + 1)"

fun expo_down :: "nat \<Rightarrow> rat \<Rightarrow> int" where
  "expo_down 0 x = 0"
| "expo_down (Suc n) x = (if 1 \<le> x then 0 else expo_down n (2 * x) - 1)"

definition exponent :: "rat \<Rightarrow> int" where
  "exponent x = (if 2 \<le> x then expo_up 1024 x else expo_down 1022 x)"

definition pow2 :: "int \<Rightarrow> rat" where
  "pow2 e = (if 0 \<le> e then 2 ^ nat e else 1 / 2 ^ nat (- e))"

definition rd :: "rat \<Rightarrow> rat" where
  "rd x =
     (if x = 0 then 0
      else of_int (round_half_even (x * pow2 (52 - exponent \<bar>x\<bar>)))
             * pow2 (exponent \<bar>x\<bar> - 52))"

definition fl :: "rat \<Rightarrow> pyfloat" where
  "fl x = (if 2 ^ 1024 \<le> rd x then PosInf
           else if rd x \<le> - (2 ^ 1024) then NegInf
           else Fin (rd x))"

text \<open>
  \<open>x * y\<close> and \<open>x / y\<close> on finite doubles, for a divisor that is not zero, and the
  conversion of an integer that \<open>n / y\<close> makes first.  The integers converted here are
  frame numbers and the truncation of a finite double, all below the \<open>2 ^ 1024\<close> from
  which the conversion raises.
\<close>

definition float_mul :: "rat \<Rightarrow> rat \<Rightarrow> pyfloat" where
  "float_mul x y = fl (x * y)"

definition float_div :: "rat \<Rightarrow> rat \<Rightarrow> pyfloat" where
  "float_div x y = fl (x / y)"

definition int_to_float :: "int \<Rightarrow> rat" where
  "int_to_float n = rd (of_int n)"

text \<open>
  \<open>int(x)\<close> on a float truncates toward zero; on an infinity it raises OverflowError.
\<close>

definition py_int :: "rat \<Rightarrow> int" where
  "py_int x = (if x < 0 then - \<lfloor>- x\<rfloor> else \<lfloor>x\<rfloor>)"

fun py_int_float :: "pyfloat \<Rightarrow> py_error + int" where
  "py_int_float (Fin x) = Inr (py_int x)"
| "py_int_float PosInf = Inl OverflowError"
| "py_int_float NegInf = Inl OverflowError"

text \<open>
  \<open>x % y\<close> and \<open>x // y\<close> on finite doubles, as CPython computes them for a divisor that
  is not zero.  C's \<open>fmod\<close> is exact and has the sign of \<open>x\<close>; the remainder moves to
  the sign of \<open>y\<close> by one rounded addition.  The quotient is \<open>(x - mod) / y\<close> in two
  rounded steps, lowered by one where the remainder moved, then its floor, raised by
  one where the quotient lies more than a half above it.  The divisors of
  \<open>format_duration\<close> are 3600, 60 and 1, with which no step leaves the range.
\<close>

definition c_fmod :: "rat \<Rightarrow> rat \<Rightarrow> rat" where
  "c_fmod x y = x - y * of_int (py_int (x / y))"

definition py_float_rem :: "rat \<Rightarrow> rat \<Rightarrow> rat" where
  "py_float_rem vx wx =
     (let m = c_fmod vx wx
      in if m \<noteq> 0 \<and> ((wx < 0) \<noteq> (m < 0)) then rd (m + wx) else m)"

definition py_float_floordiv :: "rat \<Rightarrow> rat \<Rightarrow> rat" where
  "py_float_floordiv vx wx =
     (let m = c_fmod vx wx;
          d0 = rd (rd (vx - m) / wx);
          d = (if m \<noteq> 0 \<and> ((wx < 0) \<noteq> (m < 0)) then rd (d0 - 1) else d0)
      in if d \<noteq> 0 then
           (let floordiv = of_int \<lfloor>d\<rfloor>
            in if 1 / 2 < rd (d - floordiv) then rd (floordiv + 1) else floordiv)
         else 0)"

text \<open>\<open>str(n)\<close> for an integer, and the format specification \<open>{n:02d}\<close>.\<close>

fun digits :: "nat \<Rightarrow> string" where
  "digits n = (if n < 10 then [''0123456789'' ! n]
               else digits (n div 10) @ [''0123456789'' ! (n mod 10)])"

declare digits.simps [simp del]

definition py_str_int :: "int \<Rightarrow> string" where
  "py_str_int n = (if n < 0 then CHR ''-'' # digits (nat (- n)) else digits (nat n))"

definition fmt02d :: "int \<Rightarrow> string" where
  "fmt02d n = (if n < 0 then CHR ''-'' # digits (nat (- n))
               else if n < 10 then CHR ''0'' # digits (nat n)
               else digits (nat n))"

text \<open>\<open>int(s)\<close> on a string of decimal digits; anything else raises ValueError.\<close>

definition digit_val :: "char \<Rightarrow> nat option" where
  "digit_val c = (if c \<in> set ''0123456789'' then Some (of_char c - 48) else None)"

fun int_of_digits :: "int \<Rightarrow> string \<Rightarrow> py_error + int" where
  "int_of_digits acc [] = Inr acc"
| "int_of_digits acc (c # cs) =
     (case digit_val c of
        None \<Rightarrow> Inl ValueError
      | Some d \<Rightarrow> int_of_digits (10 * acc + int d) cs)"

definition py_int_of_str :: "string \<Rightarrow> py_error + int" where
  "py_int_of_str s = (if s = [] then Inl ValueError else int_of_digits 0 s)"

text \<open>The slice \<open>s[-n:]\<close> for a positive \<open>n\<close>.\<close>

definition py_last :: "nat \<Rightarrow> 'a list \<Rightarrow> 'a list" where
  "py_last n s = drop (length s - n) s"

text \<open>\<open>sep.join(xs)\<close>.\<close>

fun py_join :: "string \<Rightarrow> string list \<Rightarrow> string" where
  "py_join sep [] = []"
| "py_join sep [x] = x"
| "py_join sep (x # y # ys) = x @ sep @ py_join sep (y # ys)"

text \<open>
  \<open>str(timedelta(seconds=n))\<close>: the days are split off first, and a timedelta of more than
  999999999 days raises OverflowError.
\<close>

definition timedelta_str :: "int \<Rightarrow> py_error + string" where
  "timedelta_str n =
     (let days = n div 86400;
          s = n mod 86400;
          hh = s div 3600;
          mm = (s mod 3600) div 60;
          ss = s mod 60;
          hms = py_str_int hh @ '':'' @ fmt02d mm @ '':'' @ fmt02d ss
      in if days < - 999999999 \<or> 999999999 < days then Inl OverflowError
         else if days = 0 then Inr hms
         else Inr (py_str_int days @ '' day'' @ (if \<bar>days\<bar> \<noteq> 1 then ''s'' else '''')
                   @ '', '' @ hms))"

text \<open>Running a fallible function over a list stops at the first exception.\<close>

fun traverse :: "('a \<Rightarrow> 'e + 'b) \<Rightarrow> 'a list \<Rightarrow> 'e + 'b list" where
  "traverse f [] = Inr []"
| "traverse f (x # xs) =
     (case f x of
        Inl e \<Rightarrow> Inl e
      | Inr y \<Rightarrow> (case traverse f xs of Inl e \<Rightarrow> Inl e | Inr ys \<Rightarrow> Inr (y # ys)))"

subsection \<open>JSON\<close>

text \<open>
  The values \<open>json.dumps\<close> accepts and \<open>json.loads\<close> returns.  A string handed to
  \<open>json.loads\<close> is either the text \<open>json.dumps\<close> made of a value, which parses back to
  that value, or some other text, on which \<open>json.loads\<close> raises: \<open>Inl\<close> of that text.
\<close>

datatype json =
    JNull
  | JBool bool
  | JInt int
  | JFloat rat
  | JStr string
  | JList "json list"
  | JDict "(string \<times> json) list"

datatype json_text = Dumps json | Raw string

fun json_loads :: "json_text \<Rightarrow> string + json" where
  "json_loads (Dumps j) = Inr j"
| "json_loads (Raw s) = Inl s"

text \<open>\<open>m[key]\<close> with a string key: only a dict that has the key answers.\<close>

fun py_getitem :: "json \<Rightarrow> string \<Rightarrow> py_error + json" where
  "py_getitem (JDict kvs) key =
     (case map_of kvs key of None \<Rightarrow> Inl KeyError | Some v \<Rightarrow> Inr v)"
| "py_getitem j key = Inl TypeError"

section \<open>MetadataManager.format\_duration\<close>

text \<open>
  On an infinite duration \<open>seconds // 3600\<close> is NaN, and \<open>int\<close> of it raises
  ValueError.
\<close>

fun format_duration :: "pyfloat \<Rightarrow> py_error + string" where
  "format_duration (Fin seconds) =
     (let hours = py_int (py_float_floordiv seconds 3600);
          minutes = py_int (py_float_floordiv (py_float_rem seconds 3600) 60);
          secs = py_int (py_float_rem seconds 60);
          frames = py_int (rd (py_float_rem seconds 1 * 24))
      in Inr (fmt02d hours @ '':'' @ fmt02d minutes @ '':'' @ fmt02d secs @ '':''
              @ fmt02d frames))"
| "format_duration PosInf = Inl ValueError"
| "format_duration NegInf = Inl ValueError"



section \<open>VideoProcessor\<close>

subsection \<open>extract\_frames\<close>

text \<open>
  What \<open>cv2.VideoCapture(video_path)\<close> gives: whether the container opened, the two
  properties the code asks for, and the frames \<open>cap.read()\<close> delivers before it
  reports the end of the stream.  The loop \<open>while cap.isOpened()\<close> reads them all when
  the container opened, and none when it did not: \<open>decoded_frames\<close>.
\<close>

record 'img video_capture =
  is_opened :: bool
  prop_fps :: rat
  prop_frame_count :: rat
  stream :: "'img list"

text \<open>The dict \<open>video_metadata\<close>.\<close>

record video_info =
  md_fps :: rat
  md_duration :: pyfloat
  md_total_frames :: int
  md_frame_interval :: int

text \<open>
  The \<open>while\<close> loop.  \<open>cvtColor\<close> is \<open>cv2.cvtColor(frame, cv2.COLOR_BGR2RGB)\<close> and
  \<open>imencode_b64\<close> is the JPEG encoding followed by base64.  The test
  \<open>current_frame % frame_interval\<close> raises ZeroDivisionError when the interval is 0;
  otherwise Python's \<open>%\<close> on integers is \<open>mod\<close>.  The time stamp is the double quotient
  of the frame number by the rate, which is positive there.
\<close>

definition decoded_frames :: "'img video_capture \<Rightarrow> 'img list" where
  "decoded_frames cap = (if is_opened cap then stream cap else [])"

fun read_loop ::
  "('img \<Rightarrow> 'rgb) \<Rightarrow> ('img \<Rightarrow> string) \<Rightarrow> int \<Rightarrow> rat \<Rightarrow> 'img list \<Rightarrow> int \<Rightarrow>
   string list \<times> pyfloat list \<times> 'rgb list \<times> int list \<Rightarrow>
   py_error + string list \<times> pyfloat list \<times> 'rgb list \<times> int list" where
  "read_loop cvtColor imencode_b64 frame_interval fps [] current_frame acc = Inr acc"
| "read_loop cvtColor imencode_b64 frame_interval fps (frame # rest) current_frame
     (frames, timestamps, frame_images, frame_numbers) =
     (if frame_interval = 0 then Inl ZeroDivisionError
      else if current_frame mod frame_interval = 0 then
        read_loop cvtColor imencode_b64 frame_interval fps rest (current_frame + 1)
          (frames @ [imencode_b64 frame],
           timestamps @ [float_div (int_to_float current_frame) fps],
           frame_images @ [cvtColor frame],
           frame_numbers @ [current_frame])
      else
        read_loop cvtColor imencode_b64 frame_interval fps rest (current_frame + 1)
          (frames, timestamps, frame_images, frame_numbers))"

text \<open>
  \<open>int(fps * sample_rate)\<close> raises OverflowError where the double product is an
  infinity, before any frame is read.
\<close>

definition extract_frames ::
  "('img \<Rightarrow> 'rgb) \<Rightarrow> ('img \<Rightarrow> string) \<Rightarrow> 'img video_capture \<Rightarrow> rat \<Rightarrow>
   py_error + string list \<times> pyfloat list \<times> 'rgb list \<times> video_info \<times> int list" where
  "extract_frames cvtColor imencode_b64 cap sample_rate =
     (let fps = prop_fps cap;
          total_frames = py_int (prop_frame_count cap)
      in case py_int_float (float_mul fps sample_rate) of
           Inl e \<Rightarrow> Inl e
         | Inr frame_interval \<Rightarrow>
             (let duration_s = (if fps > 0 then float_div (int_to_float total_frames) fps
                                else Fin 0);
                  video_metadata = \<lparr>md_fps = fps, md_duration = duration_s,
                                    md_total_frames = total_frames,
                                    md_frame_interval = frame_interval\<rparr>;
                  fps' = (if fps \<le> 0 then 30 else fps)
              in case read_loop cvtColor imencode_b64 frame_interval fps'
                        (decoded_frames cap) 0 ([], [], [], []) of
                   Inl e \<Rightarrow> Inl e
                 | Inr (frames, timestamps, frame_images, frame_numbers) \<Rightarrow>
                     Inr (frames, timestamps, frame_images, video_metadata, frame_numbers)))"

text \<open>
  The decimation rule in the words of the specification: the interval is
  \<open>round(fps * intervalSeconds)\<close>, and the frames kept are those whose index is a
  multiple of it.  \<open>round\<close> here takes a half upward and Python's takes it to the even
  neighbour; away from the halves every rounding to the nearest integer agrees.
\<close>

definition spec_frame_interval :: "rat \<Rightarrow> rat \<Rightarrow> int" where
  "spec_frame_interval fps interval_seconds = round (fps * interval_seconds)"

definition kept_indices :: "int \<Rightarrow> nat \<Rightarrow> int list" where
  "kept_indices frame_interval n =
     filter (\<lambda>i. i mod frame_interval = 0) (map int [0..<n])"

subsection \<open>The external services\<close>

text \<open>
  Every call of the OpenAI client, and the audio extraction of moviepy, either returns
  or raises; a raised exception is carried as \<open>str(e)\<close>.  The vision call tells the one
  exception the code tests for, \<open>LengthFinishReasonError\<close>, from all the others; a
  response whose parsed part is missing makes the code raise as well and counts among
  them.  \<open>float_str\<close> is \<open>str\<close> on a float, and \<open>str_strip\<close> is \<open>s.strip()\<close>, which
  removes the white space of Unicode at both ends of a string.
\<close>

record FrameAnalysis =
  description :: string
  objects_detected :: "string list"
  scene_type :: string

datatype vision_exn = LengthFinishReasonError | OtherException string

record segment =
  seg_start :: rat
  seg_end :: rat
  seg_text :: string

record transcript =
  tr_text :: string
  tr_segments :: "segment list"

record services =
  vision_parse :: "string \<Rightarrow> pyfloat \<Rightarrow> vision_exn + FrameAnalysis"
  write_audiofile :: "string \<Rightarrow> string + string"
  transcriptions_create :: "string \<Rightarrow> string + transcript"
  chat_detect :: "string \<Rightarrow> string + string"
  chat_translate :: "string \<Rightarrow> string \<Rightarrow> string + string"
  float_str :: "rat \<Rightarrow> string"
  str_strip :: "string \<Rightarrow> string"

definition supported_languages :: "(string \<times> string) list" where
  "supported_languages =
     [(''en-US'', ''English''), (''ar-AR'', ''Arabic''), (''zh-CN'', ''Mandarin''),
      (''ta-IN'', ''Tamil''), (''ms-MY'', ''Malay'')]"

subsection \<open>translate\_text and detect\_language\<close>

definition translate_text :: "services \<Rightarrow> string \<Rightarrow> string \<Rightarrow> string" where
  "translate_text client txt target_language =
     (case chat_translate client txt target_language of
        Inr content \<Rightarrow> str_strip client content
      | Inl e \<Rightarrow> txt)"

definition detect_language :: "services \<Rightarrow> string \<Rightarrow> string" where
  "detect_language client txt =
     (case chat_detect client txt of
        Inr content \<Rightarrow> str_strip client content
      | Inl e \<Rightarrow> ''en-US'')"

subsection \<open>analyze\_frame\<close>

definition analyze_frame :: "services \<Rightarrow> string \<Rightarrow> pyfloat \<Rightarrow> json_text" where
  "analyze_frame client frame_base64 ts =
     (case vision_parse client frame_base64 ts of
        Inr frame_analysis \<Rightarrow>
          Dumps (JDict [(''description'', JStr (description frame_analysis)),
                        (''objects_detected'',
                           JList (map JStr (objects_detected frame_analysis))),
                        (''scene_type'', JStr (scene_type frame_analysis))])
      | Inl LengthFinishReasonError \<Rightarrow>
          Dumps (JDict [(''description'', JStr ''Error: Response exceeded token limit''),
                        (''objects_detected'', JList []),
                        (''scene_type'', JStr ''error'')])
      | Inl (OtherException msg) \<Rightarrow>
          Dumps (JDict [(''description'', JStr (''Error analyzing frame: '' @ msg)),
                        (''objects_detected'', JList []),
                        (''scene_type'', JStr ''error'')]))"

text \<open>
  The loop of \<open>main\<close> over \<open>zip(frames, timestamps)\<close> that appends each result to
  \<open>frame_metadata\<close>.
\<close>

definition analyze_frames ::
  "services \<Rightarrow> string list \<Rightarrow> pyfloat list \<Rightarrow> json_text list" where
  "analyze_frames client frames timestamps =
     map (\<lambda>(frame, ts). analyze_frame client frame ts) (zip frames timestamps)"

text \<open>The sentinel of the specification: scene type \<open>error\<close> and no objects.\<close>

definition is_sentinel :: "json_text \<Rightarrow> bool" where
  "is_sentinel t =
     (case json_loads t of
        Inl s \<Rightarrow> False
      | Inr j \<Rightarrow> py_getitem j ''scene_type'' = Inr (JStr ''error'')
                  \<and> py_getitem j ''objects_detected'' = Inr (JList []))"

subsection \<open>extract\_audio\_with\_translations\<close>

text \<open>
  The dict the function returns keeps its keys in insertion order, and assigning to a
  key that is present replaces its value in place: \<open>AList.update\<close>.  A value is a list
  of subtitle entries, or, under the key \<open>error\<close>, the text of the exception.
\<close>

record SubtitleEntry =
  sub_inpoint :: string
  sub_outpoint :: string
  sub_text :: string

datatype audio_value = Track "SubtitleEntry list" | Message string

type_synonym audio_dict = "(string \<times> audio_value) list"

text \<open>The two loops over \<open>transcript.segments\<close>.\<close>

definition source_entries :: "services \<Rightarrow> segment list \<Rightarrow> SubtitleEntry list" where
  "source_entries client segments =
     map (\<lambda>sg. \<lparr>sub_inpoint = float_str client (seg_start sg),
                  sub_outpoint = float_str client (seg_end sg),
                  sub_text = seg_text sg\<rparr>) segments"

definition translated_entries ::
  "services \<Rightarrow> string \<Rightarrow> segment list \<Rightarrow> SubtitleEntry list" where
  "translated_entries client lang_name segments =
     map (\<lambda>sg. \<lparr>sub_inpoint = float_str client (seg_start sg),
                  sub_outpoint = float_str client (seg_end sg),
                  sub_text = translate_text client (seg_text sg) lang_name\<rparr>) segments"

definition extract_audio_with_translations :: "services \<Rightarrow> string \<Rightarrow> audio_dict" where
  "extract_audio_with_translations client video_path =
     (case write_audiofile client video_path of
        Inl e \<Rightarrow> [(''error'', Message e)]
      | Inr audio \<Rightarrow>
          (case transcriptions_create client audio of
             Inl e \<Rightarrow> [(''error'', Message e)]
           | Inr tr \<Rightarrow>
               (let source_language = detect_language client (tr_text tr);
                    subtitles0 =
                      AList.update source_language
                        (Track (source_entries client (tr_segments tr))) []
                in fold (\<lambda>(lang_code, lang_name) subtitles.
                           if lang_code \<noteq> source_language then
                             AList.update lang_code
                               (Track (translated_entries client lang_name (tr_segments tr)))
                               subtitles
                           else subtitles)
                     supported_languages subtitles0)))"

text \<open>
  The exception that ends the audio stage, if one does: from the extraction of the
  audio track, or else from the transcription.
\<close>

definition audio_failure :: "services \<Rightarrow> string \<Rightarrow> string option" where
  "audio_failure client video_path =
     (case write_audiofile client video_path of
        Inl e \<Rightarrow> Some e
      | Inr audio \<Rightarrow>
          (case transcriptions_create client audio of
             Inl e \<Rightarrow> Some e
           | Inr tr \<Rightarrow> None))"

text \<open>The transcript of a run whose audio stage does not fail.\<close>

definition audio_transcript :: "services \<Rightarrow> string \<Rightarrow> transcript option" where
  "audio_transcript client video_path =
     (case write_audiofile client video_path of
        Inl e \<Rightarrow> None
      | Inr audio \<Rightarrow>
          (case transcriptions_create client audio of
             Inl e \<Rightarrow> None
           | Inr tr \<Rightarrow> Some tr))"

section \<open>MetadataManager\<close>

subsection \<open>The structured record\<close>

text \<open>
  The dicts that \<open>create_metadata_df\<close> builds have the shape of the pydantic classes
  \<open>EventData\<close>, \<open>CaptionTrack\<close>, \<open>SourceData\<close> and \<open>VideoMetadata\<close>; each is a record
  here.  The event label is whatever value the frame's \<open>description\<close> holds.  A row of
  the DataFrame \<open>metadata_df\<close> is a record as well.
\<close>

record EventData =
  eventID :: json
  eventImageURL :: string
  inpoint :: pyfloat
  outpoint :: pyfloat

record CaptionTrack =
  eventData :: "EventData list"

record Tracks =
  caption :: CaptionTrack

record SourceData =
  src_description :: string
  title :: "string option"
  file_id :: int
  lls_kv_id :: int
  thumbnail :: string
  clip_name :: string
  clip_title :: string
  duration :: string
  proxy_uri :: string
  relative_path :: string
  tracks :: Tracks
  subtitles :: audio_dict

record VideoMetadata =
  doc_index :: string
  doc_id :: string
  version :: int
  seq_no :: int
  primary_term :: int
  found :: bool
  source :: SourceData

record df_row =
  frame_number :: int
  timestamp :: pyfloat
  formatted_time :: string
  frame_description :: json
  row_objects_detected :: json
  row_scene_type :: json

record MetadataManager =
  metadata_df :: "df_row list option"
  video_metadata :: "video_info option"
  structured_data :: "VideoMetadata option"

definition MetadataManager_init :: MetadataManager where
  "MetadataManager_init =
     \<lparr>metadata_df = None, video_metadata = None, structured_data = None\<rparr>"

text \<open>
  What the clock and the random source give to one call of \<open>create_metadata_df\<close>:
  \<open>int(time.time())\<close> at each of its six readings, and \<open>str(uuid.uuid4())\<close> at each of
  its two.
\<close>

record stamps =
  time_file_id :: nat
  time_lls_kv_id :: nat
  time_clip_name :: nat
  time_clip_title :: nat
  time_index :: nat
  time_seq_no :: nat
  uuid_thumbnail :: string
  uuid_id :: string

subsection \<open>create\_metadata\_df\<close>

text \<open>
  The first loop: \<open>json.loads\<close> of each metadata string, and on any exception a dict
  that carries the string itself.
\<close>

definition parse_metadata :: "json_text \<Rightarrow> json" where
  "parse_metadata metadata_str =
     (case json_loads metadata_str of
        Inr metadata \<Rightarrow> metadata
      | Inl s \<Rightarrow>
          JDict [(''description'', JStr s),
                 (''objects_detected'', JList []),
                 (''scene_type'', JStr ''unknown'')])"

text \<open>
  \<open>pd.DataFrame\<close> of the six columns raises ValueError unless all have one length.  The
  columns are evaluated in the order of the source, so an exception of an earlier column
  comes first.
\<close>

fun build_rows ::
  "int list \<Rightarrow> pyfloat list \<Rightarrow> string list \<Rightarrow> json list \<Rightarrow> json list \<Rightarrow> json list \<Rightarrow>
   df_row list" where
  "build_rows (n # ns) (t # ts) (f # fs) (d # ds) (ob # obs) (sc # scs) =
     \<lparr>frame_number = n, timestamp = t, formatted_time = f, frame_description = d,
      row_objects_detected = ob, row_scene_type = sc\<rparr> # build_rows ns ts fs ds obs scs"
| "build_rows ns ts fs ds obs scs = []"

definition formatted_time_of :: "pyfloat \<Rightarrow> py_error + string" where
  "formatted_time_of t =
     (case py_int_float t of
        Inl e \<Rightarrow> Inl e
      | Inr n \<Rightarrow> timedelta_str n)"

definition data_frame ::
  "int list \<Rightarrow> pyfloat list \<Rightarrow> json list \<Rightarrow> py_error + df_row list" where
  "data_frame frame_numbers timestamps parsed_metadata =
     (case traverse formatted_time_of timestamps of
        Inl e \<Rightarrow> Inl e
      | Inr formatted \<Rightarrow>
     (case traverse (\<lambda>m. py_getitem m ''description'') parsed_metadata of
        Inl e \<Rightarrow> Inl e
      | Inr descriptions \<Rightarrow>
     (case traverse (\<lambda>m. py_getitem m ''objects_detected'') parsed_metadata of
        Inl e \<Rightarrow> Inl e
      | Inr objects \<Rightarrow>
     (case traverse (\<lambda>m. py_getitem m ''scene_type'') parsed_metadata of
        Inl e \<Rightarrow> Inl e
      | Inr scenes \<Rightarrow>
          if length frame_numbers = length timestamps
             \<and> length timestamps = length parsed_metadata
          then Inr (build_rows frame_numbers timestamps formatted descriptions objects scenes)
          else Inl ValueError))))"

definition event_of_row :: "df_row \<Rightarrow> EventData" where
  "event_of_row row =
     \<lparr>eventID = frame_description row, eventImageURL = '''',
      inpoint = timestamp row, outpoint = timestamp row\<rparr>"

text \<open>
  The dict \<open>video_metadata\<close> that \<open>extract_frames\<close> returns has no key \<open>description\<close>,
  so \<open>video_metadata.get('description', '')\<close> is the empty string.  \<open>audio_data\<close> is
  always a dict, so it is stored as it is.  The entries of \<open>source_data\<close> are evaluated
  in order, \<open>lls_kv_id\<close> before \<open>duration\<close>.  On an exception the result is the exception
  alone.
\<close>

definition create_metadata_df ::
  "stamps \<Rightarrow> json_text list \<Rightarrow> pyfloat list \<Rightarrow> audio_dict \<Rightarrow> video_info \<Rightarrow> int list \<Rightarrow>
   MetadataManager \<Rightarrow> py_error + MetadataManager" where
  "create_metadata_df st frame_metadata timestamps audio_data vmd frame_numbers self =
     (case data_frame frame_numbers timestamps (map parse_metadata frame_metadata) of
        Inl e \<Rightarrow> Inl e
      | Inr df \<Rightarrow>
     (case py_int_of_str (py_last 8 (py_str_int (int (time_lls_kv_id st)))) of
        Inl e \<Rightarrow> Inl e
      | Inr lls \<Rightarrow>
     (case format_duration (md_duration vmd) of
        Inl e \<Rightarrow> Inl e
      | Inr formatted_duration \<Rightarrow>
          (let event_data = map event_of_row df;
               source_data =
                 \<lparr>src_description = '''',
                  title = None,
                  file_id = int (time_file_id st),
                  lls_kv_id = lls,
                  thumbnail = take 8 (uuid_thumbnail st) @ ''.png'',
                  clip_name = ''FIN-'' @ py_last 2 (py_str_int (int (time_clip_name st))),
                  clip_title = py_str_int (int (time_clip_title st)),
                  duration = formatted_duration,
                  proxy_uri = '''',
                  relative_path = ''//'',
                  tracks = \<lparr>caption = \<lparr>eventData = event_data\<rparr>\<rparr>,
                  subtitles = audio_data\<rparr>
           in Inr (self\<lparr>metadata_df := Some df,
                         video_metadata := Some vmd,
                         structured_data :=
                           Some \<lparr>doc_index = py_str_int (int (time_index st)),
                                 doc_id = uuid_id st,
                                 version = 1,
                                 seq_no = int (time_seq_no st),
                                 primary_term = 1,
                                 found = True,
                                 source = source_data\<rparr>\<rparr>)))))"

text \<open>The events and the subtitle mapping of the record a manager holds.\<close>

definition get_event_data :: "MetadataManager \<Rightarrow> EventData list" where
  "get_event_data self =
     (case structured_data self of
        None \<Rightarrow> []
      | Some sd \<Rightarrow> eventData (caption (tracks (source sd))))"

definition get_subtitles :: "MetadataManager \<Rightarrow> audio_dict" where
  "get_subtitles self =
     (case structured_data self of
        None \<Rightarrow> []
      | Some sd \<Rightarrow> subtitles (source sd))"

definition get_subtitle_languages :: "MetadataManager \<Rightarrow> string list" where
  "get_subtitle_languages self = map fst (get_subtitles self)"

text \<open>
  The subtitle tracks of a mapping: its values that are lists of entries.  The track of
  one language, and the segment boundaries of a track.
\<close>

definition subtitle_tracks :: "audio_dict \<Rightarrow> (string \<times> SubtitleEntry list) list" where
  "subtitle_tracks d =
     concat (map (\<lambda>(k, v). case v of Track es \<Rightarrow> [(k, es)] | Message m \<Rightarrow> []) d)"

definition track_of :: "audio_dict \<Rightarrow> string \<Rightarrow> SubtitleEntry list option" where
  "track_of d lang_code =
     (case map_of d lang_code of
        Some (Track es) \<Rightarrow> Some es
      | Some (Message m) \<Rightarrow> None
      | None \<Rightarrow> None)"

definition boundaries :: "SubtitleEntry list \<Rightarrow> (string \<times> string) list" where
  "boundaries es = map (\<lambda>e. (sub_inpoint e, sub_outpoint e)) es"

subsection \<open>query\_metadata\<close>

text \<open>
  The chat completion receives the rows of \<open>metadata_df\<close> and the query, and returns a
  parsed \<open>QueryResponse\<close> or raises.  \<open>fmt_2f\<close> is the format \<open>{x:.2f}\<close> of a float.
\<close>

record QueryResponse =
  answer :: string
  relevant_timestamps :: "string list"
  confidence :: rat

definition query_metadata ::
  "(df_row list \<Rightarrow> string \<Rightarrow> string + QueryResponse) \<Rightarrow> (rat \<Rightarrow> string) \<Rightarrow>
   MetadataManager \<Rightarrow> string \<Rightarrow> string" where
  "query_metadata chat_parse fmt_2f self query =
     (case metadata_df self of
        None \<Rightarrow> ''No metadata available. Please process a video first.''
      | Some df \<Rightarrow>
          (case chat_parse df query of
             Inl e \<Rightarrow> ''Error querying metadata: '' @ e
           | Inr result \<Rightarrow>
               ''Answer: '' @ answer result @ [CHR 0x0A, CHR 0x0A]
               @ ''Relevant Timestamps: '' @ py_join '', '' (relevant_timestamps result)
               @ [CHR 0x0A] @ ''Confidence: '' @ fmt_2f (confidence result)))"

section \<open>The assistant of VideoProcessor\<close>

text \<open>
  \<open>self.assistant\<close> is \<open>None\<close> until \<open>create_assistant_with_results\<close> has stored an
  assistant; the model keeps its id.  Each call of the assistants API returns or raises.
  \<open>runs_retrieve\<close> takes the number of the poll and gives the status of the run then.  A
  message of the thread has a role and the text of its first content part, or the
  exception that reading it raises.
\<close>

record VideoProcessor =
  assistant :: "string option"

definition VideoProcessor_init :: VideoProcessor where
  "VideoProcessor_init = \<lparr>assistant = None\<rparr>"

record assistant_api =
  files_create :: "VideoMetadata option \<Rightarrow> string + string"
  assistants_create :: "string + string"
  threads_create :: "string + string"
  messages_create :: "string \<Rightarrow> string \<Rightarrow> string + unit"
  runs_create :: "string \<Rightarrow> string \<Rightarrow> string + string"
  runs_retrieve :: "string \<Rightarrow> string \<Rightarrow> nat \<Rightarrow> string + string"
  messages_list :: "string \<Rightarrow> string + (string \<times> (string + string)) list"

definition create_assistant_with_results ::
  "assistant_api \<Rightarrow> VideoMetadata option \<Rightarrow> VideoProcessor \<Rightarrow>
   VideoProcessor \<times> string option" where
  "create_assistant_with_results api json_data self =
     (case files_create api json_data of
        Inl upload_error \<Rightarrow> (self, None)
      | Inr file_upload \<Rightarrow>
          (case assistants_create api of
             Inl assistant_error \<Rightarrow> (self, None)
           | Inr assistant_id \<Rightarrow> (self\<lparr>assistant := Some assistant_id\<rparr>, Some assistant_id)))"

text \<open>
  The loop \<open>while True\<close> that polls the run once a second.  It has no bound: on a run
  that never leaves its pending states it does not return, which is the value \<open>None\<close>.
\<close>

datatype poll_outcome = Completed | Ended string | Raised string

partial_function (option) poll_run :: "(nat \<Rightarrow> string + string) \<Rightarrow> nat \<Rightarrow> poll_outcome option" where
  "poll_run retrieve i =
     (case retrieve i of
        Inl e \<Rightarrow> Some (Raised e)
      | Inr status \<Rightarrow>
          if status = ''completed'' then Some Completed
          else if status \<in> set [''failed'', ''cancelled'', ''expired''] then Some (Ended status)
          else poll_run retrieve (Suc i))"

fun latest_reply :: "(string \<times> (string + string)) list \<Rightarrow> string" where
  "latest_reply [] = ''No response received''"
| "latest_reply ((role, content) # rest) =
     (if role = ''assistant'' then
        (case content of
           Inr v \<Rightarrow> v
         | Inl e \<Rightarrow> ''Error querying assistant: '' @ e)
      else latest_reply rest)"

definition query_assistant :: "assistant_api \<Rightarrow> VideoProcessor \<Rightarrow> string \<Rightarrow> string option" where
  "query_assistant api self query =
     (case assistant self of
        None \<Rightarrow> Some ''No assistant available. Please process a video first.''
      | Some assistant_id \<Rightarrow>
     (case threads_create api of
        Inl e \<Rightarrow> Some (''Error querying assistant: '' @ e)
      | Inr thread_id \<Rightarrow>
     (case messages_create api thread_id query of
        Inl e \<Rightarrow> Some (''Error querying assistant: '' @ e)
      | Inr u \<Rightarrow>
     (case runs_create api thread_id assistant_id of
        Inl e \<Rightarrow> Some (''Error querying assistant: '' @ e)
      | Inr run_id \<Rightarrow>
     (case poll_run (runs_retrieve api thread_id run_id) 0 of
        None \<Rightarrow> None
      | Some (Raised e) \<Rightarrow> Some (''Error querying assistant: '' @ e)
      | Some (Ended status) \<Rightarrow> Some (''Error: Run '' @ status)
      | Some Completed \<Rightarrow>
          (case messages_list api thread_id of
             Inl e \<Rightarrow> Some (''Error querying assistant: '' @ e)
           | Inr messages \<Rightarrow> Some (latest_reply messages)))))))"

section \<open>The processing run of main\<close>

text \<open>
  The handler of the button: frames every 2 seconds, the analysis of each frame in turn,
  the audio stage, then the aggregation.  An exception of \<open>extract_frames\<close> or of
  \<open>create_metadata_df\<close> ends the run.
\<close>

definition process_video ::
  "services \<Rightarrow> stamps \<Rightarrow> ('img \<Rightarrow> 'rgb) \<Rightarrow> ('img \<Rightarrow> string) \<Rightarrow> 'img video_capture \<Rightarrow>
   string \<Rightarrow> MetadataManager \<Rightarrow> py_error + MetadataManager" where
  "process_video client st cvtColor imencode_b64 cap video_path metadata_manager =
     (case extract_frames cvtColor imencode_b64 cap 2 of
        Inl e \<Rightarrow> Inl e
      | Inr (frames, timestamps, frame_images, vmd, frame_numbers) \<Rightarrow>
          (let frame_metadata = analyze_frames client frames timestamps;
               audio_data = extract_audio_with_translations client video_path
           in create_metadata_df st frame_metadata timestamps audio_data vmd frame_numbers
                metadata_manager))"

section \<open>A sample run\<close>

text \<open>
  Inputs on which the statements below are evaluated.  The frames of a capture are
  numbered; \<open>id\<close> stands for the colour conversion and \<open>digits\<close> for the encoding.
  Five captures are for the sampling rule, with the doubles 0.3 and 0.3333333333333333
  as sample rates.  A whole run takes the sixth capture, of five frames
  at one frame a second, with a vision service that raises on frame 12 and a transcript
  of two segments whose translation into Tamil raises; the same services stand for a
  video without an audio track once the audio extraction raises.
\<close>

definition film_capture :: "nat video_capture" where
  "film_capture = \<lparr>is_opened = True, prop_fps = 95 / 4, prop_frame_count = 25,
                    stream = [0..<25]\<rparr>"

definition zero_fps_capture :: "nat video_capture" where
  "zero_fps_capture = \<lparr>is_opened = True, prop_fps = 0, prop_frame_count = 3,
                        stream = [10, 11, 12]\<rparr>"

definition negative_fps_capture :: "nat video_capture" where
  "negative_fps_capture = \<lparr>is_opened = True, prop_fps = - 1, prop_frame_count = 3,
                            stream = [10, 11, 12]\<rparr>"

definition tenth_capture :: "nat video_capture" where
  "tenth_capture = \<lparr>is_opened = True, prop_fps = 10, prop_frame_count = 7,
                     stream = [10, 11, 12, 13, 14, 15, 16]\<rparr>"

definition third_capture :: "nat video_capture" where
  "third_capture = \<lparr>is_opened = True, prop_fps = 3, prop_frame_count = 3,
                     stream = [10, 11, 12]\<rparr>"

definition double_0_3 :: rat where
  "double_0_3 = 5404319552844595 / 18014398509481984"

definition double_0_3333333333333333 :: rat where
  "double_0_3333333333333333 = 6004799503160661 / 18014398509481984"

definition one_fps_capture :: "nat video_capture" where
  "one_fps_capture = \<lparr>is_opened = True, prop_fps = 1, prop_frame_count = 5,
                       stream = [10, 11, 12, 13, 14]\<rparr>"

definition demo_vision :: "string \<Rightarrow> pyfloat \<Rightarrow> vision_exn + FrameAnalysis" where
  "demo_vision frame ts =
     (if frame = ''12'' then Inl (OtherException ''timeout'')
      else Inr \<lparr>description = ''frame '' @ frame, objects_detected = [''desk''],
                scene_type = ''office''\<rparr>)"

definition demo_translate :: "string \<Rightarrow> string \<Rightarrow> string + string" where
  "demo_translate txt lang_name =
     (if lang_name = ''Tamil'' then Inl ''rate limit'' else Inr (lang_name @ '': '' @ txt))"

definition demo_transcript :: transcript where
  "demo_transcript =
     \<lparr>tr_text = ''hello world'',
      tr_segments = [\<lparr>seg_start = 0, seg_end = 3 / 2, seg_text = ''hello''\<rparr>,
                     \<lparr>seg_start = 3 / 2, seg_end = 3, seg_text = ''world''\<rparr>]\<rparr>"

text \<open>
  The services of the run strip the ASCII white space, which is what \<open>s.strip()\<close> does
  on a reply without other white space.
\<close>

definition is_space :: "char \<Rightarrow> bool" where
  "is_space c = (c \<in> set [CHR 0x09, CHR 0x0A, CHR 0x0B, CHR 0x0C, CHR 0x0D,
                             CHR 0x1C, CHR 0x1D, CHR 0x1E, CHR 0x1F, CHR 0x20])"

definition ascii_strip :: "string \<Rightarrow> string" where
  "ascii_strip s = rev (dropWhile is_space (rev (dropWhile is_space s)))"

definition demo_float_str :: "rat \<Rightarrow> string" where
  "demo_float_str q = py_str_int \<lfloor>q\<rfloor> @ ''.'' @ digits (nat (\<lfloor>q * 10\<rfloor> mod 10))"

definition working_services :: services where
  "working_services =
     \<lparr>vision_parse = demo_vision,
      write_audiofile = (\<lambda>video_path. Inr ''mp3''),
      transcriptions_create = (\<lambda>audio. Inr demo_transcript),
      chat_detect = (\<lambda>txt. Inr ''en-US''),
      chat_translate = demo_translate,
      float_str = demo_float_str,
      str_strip = ascii_strip\<rparr>"

definition silent_services :: services where
  "silent_services =
     working_services\<lparr>write_audiofile := (\<lambda>video_path. Inl ''no audio track'')\<rparr>"

definition demo_stamps :: stamps where
  "demo_stamps =
     \<lparr>time_file_id = 1700000000, time_lls_kv_id = 1700000000, time_clip_name = 1700000000,
      time_clip_title = 1700000000, time_index = 1700000001, time_seq_no = 1700000001,
      uuid_thumbnail = ''0f8fad5b-d9cb-469f-a165-70867728950e'',
      uuid_id = ''7c9e6679-7425-40de-944b-e07fc1f90ae7''\<rparr>"

text \<open>The rows, the events and the record this run yields, and its subtitle mapping.\<close>

definition sample_rows :: "df_row list" where
  "sample_rows =
     [\<lparr>frame_number = 0, timestamp = Fin 0, formatted_time = ''0:00:00'',
       frame_description = JStr ''frame 10'',
       row_objects_detected = JList [JStr ''desk''], row_scene_type = JStr ''office''\<rparr>,
      \<lparr>frame_number = 2, timestamp = Fin 2, formatted_time = ''0:00:02'',
       frame_description = JStr ''Error analyzing frame: timeout'',
       row_objects_detected = JList [], row_scene_type = JStr ''error''\<rparr>,
      \<lparr>frame_number = 4, timestamp = Fin 4, formatted_time = ''0:00:04'',
       frame_description = JStr ''frame 14'',
       row_objects_detected = JList [JStr ''desk''], row_scene_type = JStr ''office''\<rparr>]"

definition sample_events :: "EventData list" where
  "sample_events =
     [\<lparr>eventID = JStr ''frame 10'', eventImageURL = '''', inpoint = Fin 0, outpoint = Fin 0\<rparr>,
      \<lparr>eventID = JStr ''Error analyzing frame: timeout'', eventImageURL = '''',
       inpoint = Fin 2, outpoint = Fin 2\<rparr>,
      \<lparr>eventID = JStr ''frame 14'', eventImageURL = '''', inpoint = Fin 4, outpoint = Fin 4\<rparr>]"

definition sample_record :: "audio_dict \<Rightarrow> MetadataManager" where
  "sample_record audio_data =
     \<lparr>metadata_df = Some sample_rows,
      video_metadata = Some \<lparr>md_fps = 1, md_duration = Fin 5, md_total_frames = 5,
                              md_frame_interval = 2\<rparr>,
      structured_data = Some
        \<lparr>doc_index = ''1700000001'', doc_id = ''7c9e6679-7425-40de-944b-e07fc1f90ae7'',
         version = 1, seq_no = 1700000001, primary_term = 1, found = True,
         source = \<lparr>src_description = '''', title = None, file_id = 1700000000,
                   lls_kv_id = 0, thumbnail = ''0f8fad5b.png'', clip_name = ''FIN-00'',
                   clip_title = ''1700000000'', duration = ''00:00:05:00'', proxy_uri = '''',
                   relative_path = ''//'',
                   tracks = \<lparr>caption = \<lparr>eventData = sample_events\<rparr>\<rparr>,
                   subtitles = audio_data\<rparr>\<rparr>\<rparr>"

definition sample_subtitles :: audio_dict where
  "sample_subtitles =
     [(''en-US'',
       Track [\<lparr>sub_inpoint = ''0.0'', sub_outpoint = ''1.5'', sub_text = ''hello''\<rparr>,
              \<lparr>sub_inpoint = ''1.5'', sub_outpoint = ''3.0'', sub_text = ''world''\<rparr>]),
      (''ar-AR'',
       Track [\<lparr>sub_inpoint = ''0.0'', sub_outpoint = ''1.5'', sub_text = ''Arabic: hello''\<rparr>,
              \<lparr>sub_inpoint = ''1.5'', sub_outpoint = ''3.0'', sub_text = ''Arabic: world''\<rparr>]),
      (''zh-CN'',
       Track [\<lparr>sub_inpoint = ''0.0'', sub_outpoint = ''1.5'', sub_text = ''Mandarin: hello''\<rparr>,
              \<lparr>sub_inpoint = ''1.5'', sub_outpoint = ''3.0'', sub_text = ''Mandarin: world''\<rparr>]),
      (''ta-IN'',
       Track [\<lparr>sub_inpoint = ''0.0'', sub_outpoint = ''1.5'', sub_text = ''hello''\<rparr>,
              \<lparr>sub_inpoint = ''1.5'', sub_outpoint = ''3.0'', sub_text = ''world''\<rparr>]),
      (''ms-MY'',
       Track [\<lparr>sub_inpoint = ''0.0'', sub_outpoint = ''1.5'', sub_text = ''Malay: hello''\<rparr>,
              \<lparr>sub_inpoint = ''1.5'', sub_outpoint = ''3.0'', sub_text = ''Malay: world''\<rparr>])]"

section \<open>Properties\<close>

subsection \<open>Rounding to a double\<close>

lemma expo_up_numeral [simp]:
  "expo_up (numeral k) x = (if x < 2 then 0 else expo_up (pred_numeral k) (x / 2) + 1)"
  by (simp add: numeral_eq_Suc)

lemma expo_down_numeral [simp]:
  "expo_down (numeral k) x = (if 1 \<le> x then 0 else expo_down (pred_numeral k) (2 * x) - 1)"
  by (simp add: numeral_eq_Suc)

lemma floor_numeral_div_rat [simp]:
  "\<lfloor>(numeral a :: rat) / numeral b\<rfloor> = numeral a div numeral b"
  by (metis floor_divide_of_int_eq of_int_numeral)



lemma round_half_even_of_int [simp]: "round_half_even (of_int n) = n"
  by (simp add: round_half_even_def)

lemma round_half_even_range:
  "\<lfloor>q\<rfloor> \<le> round_half_even q \<and> round_half_even q \<le> \<lfloor>q\<rfloor> + 1"
  by (simp add: round_half_even_def Let_def)

lemma round_half_even_mono:
  assumes "q \<le> q'"
  shows "round_half_even q \<le> round_half_even q'"
proof (cases "\<lfloor>q\<rfloor> = \<lfloor>q'\<rfloor>")
  case True
  with assms have "q - of_int \<lfloor>q\<rfloor> \<le> q' - of_int \<lfloor>q'\<rfloor>" by simp
  with True show ?thesis
    by (auto simp: round_half_even_def Let_def)
next
  case False
  with assms have "\<lfloor>q\<rfloor> < \<lfloor>q'\<rfloor>" using floor_mono [OF assms] by linarith
  with round_half_even_range [of q] round_half_even_range [of q'] show ?thesis by linarith
qed

lemma round_half_even_ge: "of_int n \<le> q \<Longrightarrow> n \<le> round_half_even q"
  using round_half_even_mono [of "of_int n" q] by simp

lemma round_half_even_le: "q \<le> of_int n \<Longrightarrow> round_half_even q \<le> n"
  using round_half_even_mono [of q "of_int n"] by simp

lemma pow2_powi: "pow2 e = 2 powi e"
  by (simp add: pow2_def power_int_def inverse_eq_divide power_one_over)

lemma pow2_pos [simp]: "0 < pow2 e"
  by (simp add: pow2_powi)

lemma pow2_nonneg [simp]: "0 \<le> pow2 e"
  using pow2_pos [of e] by (rule less_imp_le)

lemma pow2_add: "pow2 a * pow2 b = pow2 (a + b)"
  by (simp add: pow2_powi power_int_add)

lemma pow2_le_iff: "pow2 a \<le> pow2 b \<longleftrightarrow> a \<le> b"
proof
  assume "a \<le> b"
  then show "pow2 a \<le> pow2 b"
    unfolding pow2_powi by (rule power_int_increasing) simp
next
  assume le: "pow2 a \<le> pow2 b"
  show "a \<le> b"
  proof (rule ccontr)
    assume "\<not> a \<le> b"
    then have "b < a" by simp
    then have "pow2 b < pow2 a"
      unfolding pow2_powi by (rule power_int_strict_increasing) simp
    with le show False by simp
  qed
qed

lemma pow2_less_iff: "pow2 a < pow2 b \<longleftrightarrow> a < b"
  using pow2_le_iff [of b a] by (simp add: not_le [symmetric])

lemma pow2_nat: "0 \<le> e \<Longrightarrow> pow2 e = of_int (2 ^ nat e)"
  by (simp add: pow2_def)

lemma pow2_double: "pow2 e * 2 = pow2 (e + 1)"
  using pow2_add [of e 1] by (simp add: pow2_def)

lemma expo_up_bounds:
  "1 \<le> x \<Longrightarrow>
   0 \<le> expo_up n x \<and> expo_up n x \<le> int n \<and> pow2 (expo_up n x) \<le> x \<and>
   (expo_up n x < int n \<longrightarrow> x < pow2 (expo_up n x + 1))"
proof (induction n arbitrary: x)
  case 0
  then show ?case by (simp add: pow2_def)
next
  case (Suc n)
  show ?case
  proof (cases "x < 2")
    case True
    with Suc.prems show ?thesis by (simp add: pow2_def)
  next
    case False
    then have h: "1 \<le> x / 2" by simp
    let ?e = "expo_up n (x / 2)"
    from Suc.IH [OF h] have a: "0 \<le> ?e" and b: "?e \<le> int n" and c: "pow2 ?e \<le> x / 2"
      and d: "?e < int n \<longrightarrow> x / 2 < pow2 (?e + 1)" by simp_all
    have e: "expo_up (Suc n) x = ?e + 1" using False by simp
    from c have c': "pow2 (?e + 1) \<le> x" by (simp flip: pow2_double)
    have d': "x < pow2 (?e + 1 + 1)" if "?e < int n"
    proof -
      from d that have "x < pow2 (?e + 1) * 2" by simp
      then show ?thesis by (simp only: pow2_double)
    qed
    from a b c' d' show ?thesis unfolding e by simp
  qed
qed

lemma expo_down_bounds:
  "0 < x \<Longrightarrow> x < 2 \<Longrightarrow>
   - int n \<le> expo_down n x \<and> expo_down n x \<le> 0 \<and> x < pow2 (expo_down n x + 1) \<and>
   (- int n < expo_down n x \<longrightarrow> pow2 (expo_down n x) \<le> x)"
proof (induction n arbitrary: x)
  case 0
  then show ?case by (simp add: pow2_def)
next
  case (Suc n)
  show ?case
  proof (cases "1 \<le> x")
    case True
    with Suc.prems show ?thesis by (simp add: pow2_def)
  next
    case False
    then have h: "0 < 2 * x" "2 * x < 2" using Suc.prems by simp_all
    let ?e = "expo_down n (2 * x)"
    from Suc.IH [OF h] have a: "- int n \<le> ?e" and b: "?e \<le> 0"
      and c: "2 * x < pow2 (?e + 1)" and d: "- int n < ?e \<longrightarrow> pow2 ?e \<le> 2 * x" by simp_all
    have e: "expo_down (Suc n) x = ?e - 1" using False by simp
    have dbl: "pow2 (?e - 1) * 2 = pow2 ?e" using pow2_double [of "?e - 1"] by simp
    from c have c': "x < pow2 (?e - 1 + 1)" by (simp flip: pow2_double)
    have d': "pow2 (?e - 1) \<le> x" if "- int n < ?e"
      using d that dbl by simp
    from a b c' d' show ?thesis unfolding e by simp
  qed
qed

lemma exponent_bounds:
  assumes "0 < x"
  shows "- 1022 \<le> exponent x \<and> exponent x \<le> 1024 \<and>
         (- 1022 < exponent x \<longrightarrow> pow2 (exponent x) \<le> x) \<and>
         (exponent x < 1024 \<longrightarrow> x < pow2 (exponent x + 1))"
proof (cases "2 \<le> x")
  case True
  then have "1 \<le> x" by simp
  from expo_up_bounds [OF this, of 1024] True show ?thesis
    unfolding exponent_def by (simp del: expo_up_numeral)
next
  case False
  then have "x < 2" by simp
  from expo_down_bounds [OF assms this, of 1022] False show ?thesis
    unfolding exponent_def by (simp del: expo_down_numeral)
qed

lemma exponent_mono:
  assumes "0 < x" "x \<le> y"
  shows "exponent x \<le> exponent y"
proof (rule ccontr)
  assume "\<not> exponent x \<le> exponent y"
  then have lt: "exponent y < exponent x" by simp
  have y: "0 < y" using assms by simp
  from lt exponent_bounds [OF assms(1)] exponent_bounds [OF y]
  have "pow2 (exponent x) \<le> x" "y < pow2 (exponent y + 1)" by auto
  with assms(2) have "pow2 (exponent x) < pow2 (exponent y + 1)" by linarith
  then have "exponent x < exponent y + 1" by (simp only: pow2_less_iff)
  with lt show False by simp
qed

lemma pow2_cancel: "pow2 (52 - e) * pow2 (e - 52) = 1"
  by (simp add: pow2_add) (simp add: pow2_def)

lemma rd_pos:
  "0 < x \<Longrightarrow> rd x = of_int (round_half_even (x * pow2 (52 - exponent x))) * pow2 (exponent x - 52)"
  by (simp add: rd_def)

lemma rd_nonneg: "0 \<le> x \<Longrightarrow> 0 \<le> rd x"
proof (cases "x = 0")
  case True
  then show ?thesis by (simp add: rd_def)
next
  case False
  assume "0 \<le> x"
  with False have x: "0 < x" by simp
  then have "of_int 0 \<le> x * pow2 (52 - exponent x)" by simp
  then have "0 \<le> round_half_even (x * pow2 (52 - exponent x))"
    by (rule round_half_even_ge)
  then show ?thesis by (simp add: rd_pos [OF x])
qed

lemma rd_upper:
  assumes "0 < x" "exponent x < 1024"
  shows "rd x \<le> pow2 (exponent x + 1)"
proof -
  let ?e = "exponent x"
  have k: "pow2 (?e + 1) * pow2 (52 - ?e) = pow2 53" by (simp add: pow2_add)
  have k': "pow2 53 * pow2 (?e - 52) = pow2 (?e + 1)" by (simp add: pow2_add algebra_simps)
  from exponent_bounds [OF assms(1)] assms(2) have "x < pow2 (?e + 1)" by simp
  then have "x * pow2 (52 - ?e) \<le> pow2 (?e + 1) * pow2 (52 - ?e)"
    by (simp add: mult_right_mono)
  also have "\<dots> = of_int (2 ^ nat 53)" unfolding k by (rule pow2_nat) simp
  finally have "round_half_even (x * pow2 (52 - ?e)) \<le> 2 ^ nat 53"
    by (rule round_half_even_le)
  then have "(of_int (round_half_even (x * pow2 (52 - ?e))) :: rat) \<le> of_int (2 ^ nat 53)"
    by (simp only: of_int_le_iff)
  then have "rd x \<le> of_int (2 ^ nat 53) * pow2 (?e - 52)"
    unfolding rd_pos [OF assms(1)] by (rule mult_right_mono) simp
  also have "of_int (2 ^ nat 53) = pow2 53" by (rule pow2_nat [symmetric]) simp
  finally show ?thesis unfolding k' .
qed

lemma rd_lower:
  assumes "0 < x" "- 1022 < exponent x"
  shows "pow2 (exponent x) \<le> rd x"
proof -
  let ?e = "exponent x"
  have k: "pow2 ?e * pow2 (52 - ?e) = pow2 52" by (simp add: pow2_add)
  have k': "pow2 52 * pow2 (?e - 52) = pow2 ?e" by (simp add: pow2_add)
  have n: "pow2 52 = of_int (2 ^ nat 52)" by (rule pow2_nat) simp
  from exponent_bounds [OF assms(1)] assms(2) have "pow2 ?e \<le> x" by simp
  then have "pow2 ?e * pow2 (52 - ?e) \<le> x * pow2 (52 - ?e)"
    by (simp add: mult_right_mono)
  then have "of_int (2 ^ nat 52) \<le> x * pow2 (52 - ?e)" unfolding k n .
  then have "2 ^ nat 52 \<le> round_half_even (x * pow2 (52 - ?e))"
    by (rule round_half_even_ge)
  then have "(of_int (2 ^ nat 52) :: rat) \<le> of_int (round_half_even (x * pow2 (52 - ?e)))"
    by (simp only: of_int_le_iff)
  then have "of_int (2 ^ nat 52) * pow2 (?e - 52) \<le> rd x"
    unfolding rd_pos [OF assms(1)] by (rule mult_right_mono) simp
  then show ?thesis unfolding n [symmetric] k' .
qed

lemma rd_mono_nonneg:
  assumes "0 \<le> x" "x \<le> y"
  shows "rd x \<le> rd y"
proof (cases "x = 0")
  case True
  with assms rd_nonneg [of y] show ?thesis by (simp add: rd_def)
next
  case False
  with assms have x: "0 < x" and y: "0 < y" by simp_all
  have le: "exponent x \<le> exponent y" by (rule exponent_mono [OF x assms(2)])
  show ?thesis
  proof (cases "exponent x = exponent y")
    case True
    have "x * pow2 (52 - exponent y) \<le> y * pow2 (52 - exponent y)"
      using assms(2) by (simp add: mult_right_mono)
    then have "round_half_even (x * pow2 (52 - exponent y))
               \<le> round_half_even (y * pow2 (52 - exponent y))"
      by (rule round_half_even_mono)
    then have "(of_int (round_half_even (x * pow2 (52 - exponent y))) :: rat)
               \<le> of_int (round_half_even (y * pow2 (52 - exponent y)))"
      by (simp only: of_int_le_iff)
    then show ?thesis
      unfolding rd_pos [OF x] rd_pos [OF y] True by (rule mult_right_mono) simp
  next
    case False
    with le have lt: "exponent x < exponent y" by simp
    with exponent_bounds [OF x] exponent_bounds [OF y]
    have "exponent x < 1024" "- 1022 < exponent y" by linarith+
    from rd_upper [OF x this(1)] rd_lower [OF y this(2)]
    have "rd x \<le> pow2 (exponent x + 1)" "pow2 (exponent y) \<le> rd y" .
    moreover have "pow2 (exponent x + 1) \<le> pow2 (exponent y)"
      using lt by (simp add: pow2_le_iff)
    ultimately show ?thesis by linarith
  qed
qed

lemma rd_of_int_small:
  assumes "0 \<le> n" "n < 2 ^ 53"
  shows "rd (of_int n) = of_int n"
proof (cases "n = 0")
  case True
  then show ?thesis by (simp add: rd_def)
next
  case False
  with assms have x: "(0::rat) < of_int n" by simp
  let ?e = "exponent (of_int n)"
  have e: "?e \<le> 52"
  proof (rule ccontr)
    assume "\<not> ?e \<le> 52"
    then have big: "53 \<le> ?e" by simp
    with exponent_bounds [OF x] have "pow2 ?e \<le> (of_int n :: rat)" by simp
    moreover have "pow2 53 \<le> pow2 ?e" using big by (simp only: pow2_le_iff)
    moreover have "pow2 53 = of_int (2 ^ nat 53)" by (rule pow2_nat) simp
    ultimately have "(of_int (2 ^ nat 53) :: rat) \<le> of_int n" by simp
    then have "2 ^ nat 53 \<le> n" by (simp only: of_int_le_iff)
    with assms(2) show False by simp
  qed
  then have p: "pow2 (52 - ?e) = of_int (2 ^ nat (52 - ?e))"
    by (intro pow2_nat) simp
  have "round_half_even (of_int n * pow2 (52 - ?e)) = n * 2 ^ nat (52 - ?e)"
    unfolding p by (simp only: of_int_mult [symmetric] round_half_even_of_int)
  then have "rd (of_int n) = of_int (n * 2 ^ nat (52 - ?e)) * pow2 (?e - 52)"
    by (simp add: rd_pos [OF x])
  also have "\<dots> = of_int n * (pow2 (52 - ?e) * pow2 (?e - 52))"
    unfolding p by simp
  finally show ?thesis by (simp only: pow2_cancel mult_1_right)
qed


lemma fl_mono_nonneg:
  assumes "0 \<le> x" "x \<le> y"
  shows "fl x \<le> fl y"
proof -
  have "rd x \<le> rd y" by (rule rd_mono_nonneg [OF assms])
  moreover have "0 \<le> rd x" by (rule rd_nonneg [OF assms(1)])
  ultimately show ?thesis by (simp add: fl_def)
qed

lemma fl_nonneg: "0 \<le> x \<Longrightarrow> Fin 0 \<le> fl x"
  using rd_nonneg [of x] by (simp add: fl_def)

lemma int_to_float_small: "0 \<le> n \<Longrightarrow> n < 2 ^ 53 \<Longrightarrow> int_to_float n = of_int n"
  by (simp add: int_to_float_def rd_of_int_small)

lemma rd_numeral_small:
  "numeral k < (2 ^ 53 :: int) \<Longrightarrow> rd (numeral k) = numeral k"
  using rd_of_int_small [of "numeral k"] by simp

subsection \<open>The duration formatter\<close>

lemma floor_div_pos_int:
  fixes x :: rat
  assumes "0 < k"
  shows "\<lfloor>x / of_int k\<rfloor> = \<lfloor>x\<rfloor> div k"
proof (rule floor_unique)
  have k: "(0::rat) < of_int k" using assms by simp
  have split: "\<lfloor>x\<rfloor> = \<lfloor>x\<rfloor> div k * k + \<lfloor>x\<rfloor> mod k" by simp
  have lo: "0 \<le> \<lfloor>x\<rfloor> mod k" and hi: "\<lfloor>x\<rfloor> mod k < k" using assms by simp_all
  have "\<lfloor>x\<rfloor> div k * k \<le> \<lfloor>x\<rfloor>" using split lo by linarith
  then have "of_int (\<lfloor>x\<rfloor> div k * k) \<le> (of_int \<lfloor>x\<rfloor> :: rat)"
    unfolding of_int_le_iff .
  also have "\<dots> \<le> x" by simp
  finally have "of_int (\<lfloor>x\<rfloor> div k) * of_int k \<le> x" by simp
  then show "of_int (\<lfloor>x\<rfloor> div k) \<le> x / of_int k"
    using k by (simp add: pos_le_divide_eq)
  have "\<lfloor>x\<rfloor> + 1 \<le> \<lfloor>x\<rfloor> div k * k + k" using split hi by linarith
  then have "\<lfloor>x\<rfloor> + 1 \<le> (\<lfloor>x\<rfloor> div k + 1) * k" by (simp add: algebra_simps)
  then have "(of_int (\<lfloor>x\<rfloor> + 1) :: rat) \<le> of_int ((\<lfloor>x\<rfloor> div k + 1) * k)"
    unfolding of_int_le_iff .
  moreover have "x < of_int (\<lfloor>x\<rfloor> + 1)" by linarith
  ultimately have "x < (of_int (\<lfloor>x\<rfloor> div k) + 1) * of_int k" by simp
  then show "x / of_int k < of_int (\<lfloor>x\<rfloor> div k) + 1"
    using k by (simp add: pos_divide_less_eq)
qed

lemma py_int_nonneg: "0 \<le> x \<Longrightarrow> py_int x = \<lfloor>x\<rfloor>"
  by (simp add: py_int_def)

lemma py_int_of_int [simp]: "py_int (of_int n) = n"
  by (simp add: py_int_def)

lemma py_int_numeral [simp]: "py_int (numeral n) = numeral n" "py_int 0 = 0" "py_int 1 = 1"
  by (simp_all add: py_int_def)

lemma minutes_range: "0 \<le> (n::int) mod 3600 div 60 \<and> n mod 3600 div 60 < 100"
proof -
  have "0 \<le> n mod 3600" "n mod 3600 < 3600" by simp_all
  then show ?thesis by (simp add: pos_imp_zdiv_nonneg_iff)
qed




lemma c_fmod_nonneg:
  assumes "0 \<le> s" "0 < k"
  shows "c_fmod s (of_int k) = s - of_int k * of_int (\<lfloor>s\<rfloor> div k)"
proof -
  have "0 \<le> s / of_int k" using assms by simp
  then have "py_int (s / of_int k) = \<lfloor>s / of_int k\<rfloor>" by (rule py_int_nonneg)
  also have "\<dots> = \<lfloor>s\<rfloor> div k" by (rule floor_div_pos_int [OF assms(2)])
  finally show ?thesis by (simp add: c_fmod_def)
qed

lemma remainder_bounds:
  assumes "0 < k"
  shows "0 \<le> s - of_int k * of_int (\<lfloor>s\<rfloor> div k)"
    and "\<lfloor>s - of_int k * of_int (\<lfloor>s\<rfloor> div k)\<rfloor> = \<lfloor>s\<rfloor> mod k"
proof -
  have eq: "s - of_int k * of_int (\<lfloor>s\<rfloor> div k) = s - of_int (k * (\<lfloor>s\<rfloor> div k))" by simp
  have "\<lfloor>s - of_int (k * (\<lfloor>s\<rfloor> div k))\<rfloor> = \<lfloor>s\<rfloor> - k * (\<lfloor>s\<rfloor> div k)"
    by (rule floor_diff_of_int)
  also have "\<dots> = \<lfloor>s\<rfloor> mod k" by (rule minus_mult_div_eq_mod)
  finally show fl: "\<lfloor>s - of_int k * of_int (\<lfloor>s\<rfloor> div k)\<rfloor> = \<lfloor>s\<rfloor> mod k"
    by (simp only: eq)
  have "0 \<le> \<lfloor>s\<rfloor> mod k" using assms by simp
  then have "0 \<le> \<lfloor>s - of_int k * of_int (\<lfloor>s\<rfloor> div k)\<rfloor>" by (simp only: fl)
  then show "0 \<le> s - of_int k * of_int (\<lfloor>s\<rfloor> div k)" by (simp only: zero_le_floor)
qed

lemma py_float_rem_nonneg:
  assumes "0 \<le> s" "0 < k"
  shows "py_float_rem s (of_int k) = s - of_int k * of_int (\<lfloor>s\<rfloor> div k)"
  using assms remainder_bounds(1) [OF assms(2), of s]
  by (simp add: py_float_rem_def c_fmod_nonneg Let_def)

lemma py_float_floordiv_nonneg:
  assumes "0 \<le> s" "0 < k" "k * (\<lfloor>s\<rfloor> div k) < 2 ^ 53"
  shows "py_float_floordiv s (of_int k) = of_int (\<lfloor>s\<rfloor> div k)"
proof -
  let ?q = "\<lfloor>s\<rfloor> div k"
  let ?m = "s - of_int k * of_int ?q"
  have q0: "0 \<le> ?q" using assms(1,2) by (simp add: pos_imp_zdiv_nonneg_iff)
  have kq0: "0 \<le> k * ?q" using q0 assms(2) by simp
  have "?q \<le> k * ?q" using q0 assms(2) by (simp add: mult_le_cancel_right1)
  with assms(3) have qs: "?q < 2 ^ 53" by simp
  have m: "c_fmod s (of_int k) = ?m" by (rule c_fmod_nonneg [OF assms(1,2)])
  have nomove: "(?m \<noteq> 0 \<and> (((of_int k :: rat) < 0) \<noteq> (?m < 0))) = False"
    using remainder_bounds(1) [OF assms(2), of s] assms(2) by simp
  have "s - ?m = of_int (k * ?q)" by simp
  then have "rd (s - ?m) = of_int (k * ?q)"
    using rd_of_int_small [OF kq0 assms(3)] by simp
  then have "rd (s - ?m) / of_int k = of_int ?q" using assms(2) by simp
  then have d: "rd (rd (s - ?m) / of_int k) = of_int ?q"
    using rd_of_int_small [OF q0 qs] by simp
  have z: "rd 0 = 0" by (simp add: rd_def)
  show ?thesis
    unfolding py_float_floordiv_def m Let_def nomove if_False d
    by (simp add: z)
qed

lemma hours_eq:
  assumes "0 \<le> s" "s < 360000"
  shows "py_int (py_float_floordiv s 3600) = \<lfloor>s\<rfloor> div 3600"
    and "0 \<le> \<lfloor>s\<rfloor> div 3600" and "\<lfloor>s\<rfloor> div 3600 < 100"
proof -
  have lo: "0 \<le> \<lfloor>s\<rfloor>" using assms(1) by simp
  have "\<lfloor>s\<rfloor> < 360000" using assms(2) by (simp add: floor_less_iff)
  then have "\<lfloor>s\<rfloor> \<le> 359999" by simp
  then have "\<lfloor>s\<rfloor> div 3600 \<le> 359999 div 3600" by (rule zdiv_mono1) simp
  then show hi: "\<lfloor>s\<rfloor> div 3600 < 100" by simp
  show q0: "0 \<le> \<lfloor>s\<rfloor> div 3600" using lo by (simp add: pos_imp_zdiv_nonneg_iff)
  from hi q0 have "3600 * (\<lfloor>s\<rfloor> div 3600) < 2 ^ 53" by simp
  from py_float_floordiv_nonneg [OF assms(1), of 3600, OF _ this]
  show "py_int (py_float_floordiv s 3600) = \<lfloor>s\<rfloor> div 3600" by simp
qed

lemma minutes_eq:
  assumes "0 \<le> s"
  shows "py_int (py_float_floordiv (py_float_rem s 3600) 60) = \<lfloor>s\<rfloor> mod 3600 div 60"
proof -
  let ?m = "s - 3600 * of_int (\<lfloor>s\<rfloor> div 3600)"
  have r: "py_float_rem s 3600 = ?m"
    using py_float_rem_nonneg [OF assms, of 3600] by simp
  have m0: "0 \<le> ?m" and mf: "\<lfloor>?m\<rfloor> = \<lfloor>s\<rfloor> mod 3600"
    using remainder_bounds [of 3600 s] by simp_all
  have "60 * (\<lfloor>s\<rfloor> mod 3600 div 60) < 2 ^ 53"
    using minutes_range [of "\<lfloor>s\<rfloor>"] by simp
  then have "60 * (\<lfloor>?m\<rfloor> div 60) < 2 ^ 53" by (simp only: mf)
  from py_float_floordiv_nonneg [OF m0, of 60, OF _ this]
  have "py_float_floordiv ?m 60 = of_int (\<lfloor>?m\<rfloor> div 60)" by simp
  then show ?thesis unfolding r mf by simp
qed

lemma secs_eq:
  assumes "0 \<le> s"
  shows "py_int (py_float_rem s 60) = \<lfloor>s\<rfloor> mod 60"
  using py_float_rem_nonneg [OF assms, of 60] remainder_bounds [of 60 s]
  by (simp add: py_int_nonneg)

lemma rem_one:
  assumes "0 \<le> s"
  shows "py_float_rem s 1 = frac s"
  using py_float_rem_nonneg [OF assms, of 1] by (simp add: frac_def)

lemma frames_eq:
  assumes "0 \<le> s"
  shows "py_int (rd (py_float_rem s 1 * 24)) = \<lfloor>rd (frac s * 24)\<rfloor>"
proof -
  have "0 \<le> frac s * 24" by simp
  then have "0 \<le> rd (frac s * 24)" by (rule rd_nonneg)
  then show ?thesis by (simp add: rem_one [OF assms] py_int_nonneg)
qed


lemma format_duration_fields:
  assumes "0 \<le> s" "s < 360000"
  shows "format_duration (Fin s) =
           Inr (fmt02d (\<lfloor>s\<rfloor> div 3600) @ '':'' @ fmt02d (\<lfloor>s\<rfloor> mod 3600 div 60) @ '':'' @
                fmt02d (\<lfloor>s\<rfloor> mod 60) @ '':'' @ fmt02d \<lfloor>rd (frac s * 24)\<rfloor>)"
  by (simp add: Let_def hours_eq(1) [OF assms] minutes_eq [OF assms(1)] secs_eq [OF assms(1)]
      frames_eq [OF assms(1)])








subsection \<open>The sampling loop\<close>

lemma read_loop_enumerate:
  assumes "fi \<noteq> 0"
  shows "read_loop cvt enc fi r xs (int n) (fs, ts, imgs, ns) =
           Inr (fs @ map (\<lambda>p. enc (snd p)) (filter (\<lambda>p. int (fst p) mod fi = 0) (enumerate n xs)),
                ts @ map (\<lambda>p. float_div (int_to_float (int (fst p))) r)
                       (filter (\<lambda>p. int (fst p) mod fi = 0) (enumerate n xs)),
                imgs @ map (\<lambda>p. cvt (snd p)) (filter (\<lambda>p. int (fst p) mod fi = 0) (enumerate n xs)),
                ns @ map (\<lambda>p. int (fst p)) (filter (\<lambda>p. int (fst p) mod fi = 0) (enumerate n xs)))"
  using assms
proof (induction xs arbitrary: n fs ts imgs ns)
  case Nil
  then show ?case by simp
next
  case (Cons x xs)
  have step: "int n + 1 = int (Suc n)" by simp
  show ?case
    using Cons.prems Cons.IH [OF Cons.prems, of "Suc n"]
    by (simp only: read_loop.simps step enumerate_simps) simp
qed

lemma kept_indices_alt:
  "kept_indices fi n = map int (filter (\<lambda>k. int k mod fi = 0) [0..<n])"
  by (simp add: kept_indices_def filter_map o_def)

lemma map_filter_fst:
  "map (\<lambda>p. h (fst p)) (filter (\<lambda>p. P (fst p)) l) = map h (filter P (map fst l))"
  by (simp add: filter_map o_def)

lemma filter_enumerate_fst:
  "map (\<lambda>p. g (fst p) (snd p)) (filter (\<lambda>p. P (fst p)) (enumerate 0 xs)) =
   map (\<lambda>k. g k (xs ! k)) (filter P [0..<length xs])"
proof -
  have "map (\<lambda>p. g (fst p) (snd p)) (filter (\<lambda>p. P (fst p)) (enumerate 0 xs)) =
        map (\<lambda>p. g (fst p) (xs ! fst p)) (filter (\<lambda>p. P (fst p)) (enumerate 0 xs))"
    by (rule map_cong) (auto simp: in_set_enumerate_eq)
  also have "\<dots> = map (\<lambda>k. g k (xs ! k)) (filter P (map fst (enumerate 0 xs)))"
    by (rule map_filter_fst [of "\<lambda>k. g k (xs ! k)"])
  finally show ?thesis by simp
qed

lemma read_loop_kept:
  assumes "fi \<noteq> 0"
  shows "read_loop cvt enc fi r xs 0 ([], [], [], []) =
           Inr (map (\<lambda>i. enc (xs ! nat i)) (kept_indices fi (length xs)),
                map (\<lambda>i. float_div (int_to_float i) r) (kept_indices fi (length xs)),
                map (\<lambda>i. cvt (xs ! nat i)) (kept_indices fi (length xs)),
                kept_indices fi (length xs))"
proof -
  let ?P = "\<lambda>k. int k mod fi = 0"
  have "read_loop cvt enc fi r xs (int 0) ([], [], [], []) =
        Inr (map (\<lambda>k. enc (xs ! k)) (filter ?P [0..<length xs]),
             map (\<lambda>k. float_div (int_to_float (int k)) r) (filter ?P [0..<length xs]),
             map (\<lambda>k. cvt (xs ! k)) (filter ?P [0..<length xs]),
             map (\<lambda>k. int k) (filter ?P [0..<length xs]))"
    unfolding read_loop_enumerate [OF assms]
    using filter_enumerate_fst [of "\<lambda>k x. enc x" ?P xs]
          filter_enumerate_fst [of "\<lambda>k x. float_div (int_to_float (int k)) r" ?P xs]
          filter_enumerate_fst [of "\<lambda>k x. cvt x" ?P xs]
          filter_enumerate_fst [of "\<lambda>k x. int k" ?P xs]
    by simp
  then show ?thesis by (simp add: kept_indices_alt o_def)
qed

lemma read_loop_zero:
  "read_loop cvt enc 0 r xs c acc = (if xs = [] then Inr acc else Inl ZeroDivisionError)"
  by (cases xs; cases acc) auto

lemma py_int_zero_iff: "py_int x = 0 \<longleftrightarrow> - 1 < x \<and> x < 1"
  unfolding py_int_def by (auto simp: floor_eq_iff)

lemma sorted_kept_indices: "sorted (kept_indices fi n)"
proof -
  have "sorted (map int [0..<n])"
    by (rule sorted_wrt_map_mono [OF sorted_upt]) simp
  then show ?thesis unfolding kept_indices_def by (rule sorted_wrt_filter)
qed

lemma extract_frames_overflow:
  assumes "float_mul (prop_fps cap) sample_rate = PosInf \<or>
           float_mul (prop_fps cap) sample_rate = NegInf"
  shows "extract_frames cvt enc cap sample_rate = Inl OverflowError"
  using assms by (auto simp add: extract_frames_def Let_def)

lemma extract_frames_eq:
  assumes "float_mul (prop_fps cap) sample_rate = Fin p"
  shows "extract_frames cvt enc cap sample_rate =
     (if py_int p = 0 \<and> decoded_frames cap \<noteq> []
      then Inl ZeroDivisionError
      else Inr (map (\<lambda>i. enc (decoded_frames cap ! nat i))
                  (kept_indices (py_int p) (length (decoded_frames cap))),
                map (\<lambda>i. float_div (int_to_float i) (if prop_fps cap \<le> 0 then 30 else prop_fps cap))
                  (kept_indices (py_int p) (length (decoded_frames cap))),
                map (\<lambda>i. cvt (decoded_frames cap ! nat i))
                  (kept_indices (py_int p) (length (decoded_frames cap))),
                \<lparr>md_fps = prop_fps cap,
                 md_duration = (if prop_fps cap > 0
                                then float_div (int_to_float (py_int (prop_frame_count cap)))
                                       (prop_fps cap)
                                else Fin 0),
                 md_total_frames = py_int (prop_frame_count cap),
                 md_frame_interval = py_int p\<rparr>,
                kept_indices (py_int p) (length (decoded_frames cap))))"
proof (cases "py_int p = 0")
  case True
  then show ?thesis
    by (simp add: extract_frames_def assms Let_def read_loop_zero kept_indices_def)
next
  case False
  then show ?thesis
    by (simp add: extract_frames_def assms Let_def read_loop_kept)
qed

lemma digits_10_14:
  "digits 10 = ''10''" "digits 11 = ''11''" "digits 12 = ''12''" "digits 13 = ''13''"
  "digits 14 = ''14''" "digits 0 = ''0''" "digits 23 = ''23''" "digits 16 = ''16''"
  by (simp_all add: digits.simps)

lemma fl_values:
  "fl 0 = Fin 0"
  "fl (10 * double_0_3) = Fin 3"
  "fl (3 * double_0_3333333333333333) = Fin 1"
  "fl (3 / 10) = Fin (5404319552844595 / 18014398509481984)"
  "fl (3 / 5) = Fin (5404319552844595 / 9007199254740992)"
  "fl (7 / 10) = Fin (3152519739159347 / 4503599627370496)"
  "fl (95 / 4) = Fin (95 / 4)"
  "fl (92 / 95) = Fin (8722761383538645 / 9007199254740992)"
  "fl (20 / 19) = Fin (4740631186705785 / 4503599627370496)"
  "fl (1 / 30) = Fin (4803839602528529 / 144115188075855872)"
  "fl (1 / 15) = Fin (4803839602528529 / 72057594037927936)"
  "fl (1 / 3) = Fin (6004799503160661 / 18014398509481984)"
  "fl (2 / 3) = Fin (6004799503160661 / 9007199254740992)"
  "fl (- 1) = Fin (- 1)"
  "fl (- 2) = Fin (- 2)"
  "fl 1 = Fin 1"
  "fl 2 = Fin 2"
  "fl 4 = Fin 4"
  "fl 5 = Fin 5"
  by (simp_all add: fl_def rd_def exponent_def round_half_even_def Let_def pow2_def
      double_0_3_def double_0_3333333333333333_def)

text \<open>
  Claim C1 as the code has it.  The interval is \<open>int(fps * sample_rate)\<close>: the product
  is the double nearest to the exact one, and \<open>int\<close> truncates it toward zero.  Whenever
  the interval is not zero, the sampler returns exactly the frames whose index is a
  multiple of it, with each frame's index and its time stamp, the double quotient of the
  index by the rate (the fallback 30 standing in for a reported rate of zero or less).
\<close>

theorem extract_frames_decimation:
  assumes "float_mul (prop_fps cap) sample_rate = Fin p" and "py_int p \<noteq> 0"
  shows "extract_frames cvt enc cap sample_rate =
     Inr (map (\<lambda>i. enc (decoded_frames cap ! nat i))
            (kept_indices (py_int p) (length (decoded_frames cap))),
          map (\<lambda>i. float_div (int_to_float i) (if prop_fps cap \<le> 0 then 30 else prop_fps cap))
            (kept_indices (py_int p) (length (decoded_frames cap))),
          map (\<lambda>i. cvt (decoded_frames cap ! nat i))
            (kept_indices (py_int p) (length (decoded_frames cap))),
          \<lparr>md_fps = prop_fps cap,
           md_duration = (if prop_fps cap > 0
                          then float_div (int_to_float (py_int (prop_frame_count cap)))
                                 (prop_fps cap)
                          else Fin 0),
           md_total_frames = py_int (prop_frame_count cap),
           md_frame_interval = py_int p\<rparr>,
          kept_indices (py_int p) (length (decoded_frames cap)))"
  using assms(2) by (simp add: extract_frames_eq [OF assms(1)])

theorem extract_frames_decimation_witness:
  "float_mul (prop_fps tenth_capture) double_0_3 = Fin 3 \<and> py_int 3 \<noteq> 0 \<and>
   extract_frames id digits tenth_capture double_0_3 =
     Inr ([''10'', ''13'', ''16''],
          [Fin 0, Fin (5404319552844595 / 18014398509481984),
           Fin (5404319552844595 / 9007199254740992)],
          [10, 13, 16],
          \<lparr>md_fps = 10, md_duration = Fin (3152519739159347 / 4503599627370496),
           md_total_frames = 7, md_frame_interval = 3\<rparr>,
          [0, 3, 6])"
proof -
  have fm: "float_mul (prop_fps tenth_capture) double_0_3 = Fin 3"
    by (simp add: tenth_capture_def float_mul_def fl_values)
  have nz: "py_int 3 \<noteq> 0" by simp
  have len: "length (decoded_frames tenth_capture) = 7"
    by (simp add: tenth_capture_def decoded_frames_def)
  have k: "kept_indices 3 7 = [0, 3, 6]"
    by code_simp
  have dec: "decoded_frames tenth_capture = [10, 11, 12, 13, 14, 15, 16]"
    by (simp add: tenth_capture_def decoded_frames_def)
  have props: "prop_fps tenth_capture = 10" "py_int (prop_frame_count tenth_capture) = 7"
    by (simp_all add: tenth_capture_def)
  have i: "py_int 3 = 3" by simp
  show ?thesis
    using extract_frames_decimation [OF fm nz, of id digits]
    unfolding i len k
    by (simp add: dec props digits_10_14 float_div_def float_mul_def int_to_float_small
        fl_values)
qed

text \<open>
  Claim C1 as the specification words it fails: at 23.75 frames a second and an interval
  of one second the rounded interval is 24, whose multiples below 25 are 0 and 24, while
  the code keeps the frames 0 and 23.
\<close>

theorem round_interval_counterexample:
  "spec_frame_interval (prop_fps film_capture) 1 = 24 \<and>
   kept_indices (spec_frame_interval (prop_fps film_capture) 1)
     (length (decoded_frames film_capture)) = [0, 24] \<and>
   extract_frames id digits film_capture 1 =
     Inr ([''0'', ''23''], [Fin 0, Fin (8722761383538645 / 9007199254740992)], [0, 23],
          \<lparr>md_fps = 95 / 4, md_duration = Fin (4740631186705785 / 4503599627370496),
           md_total_frames = 25, md_frame_interval = 23\<rparr>,
          [0, 23])"
proof -
  have fm: "float_mul (prop_fps film_capture) 1 = Fin (95 / 4)"
    by (simp add: film_capture_def float_mul_def fl_values)
  have fi: "py_int (95 / 4) = 23"
    by (simp add: py_int_def)
  have sp: "spec_frame_interval (prop_fps film_capture) 1 = 24"
    by code_simp
  have len: "length (decoded_frames film_capture) = 25"
    by (simp add: film_capture_def decoded_frames_def)
  have k: "kept_indices 24 25 = [0, 24]" "kept_indices 23 25 = [0, 23]"
    by code_simp+
  have nth: "decoded_frames film_capture ! 0 = 0" "decoded_frames film_capture ! 23 = 23"
    by (simp_all add: film_capture_def decoded_frames_def)
  have props: "prop_fps film_capture = 95 / 4" "py_int (prop_frame_count film_capture) = 25"
    by (simp_all add: film_capture_def)
  have "extract_frames id digits film_capture 1 =
     Inr ([''0'', ''23''], [Fin 0, Fin (8722761383538645 / 9007199254740992)], [0, 23],
          \<lparr>md_fps = 95 / 4, md_duration = Fin (4740631186705785 / 4503599627370496),
           md_total_frames = 25, md_frame_interval = 23\<rparr>,
          [0, 23])"
    unfolding extract_frames_eq [OF fm] fi len k
    by (simp add: nth props digits_10_14 float_div_def int_to_float_small fl_values)
  then show ?thesis
    unfolding sp len k by simp
qed

text \<open>
  Claim C10 as the code has it.  The interval is zero exactly when the double product
  \<open>fps * sample_rate\<close> lies strictly between -1 and 1; then the first decoded frame raises
  ZeroDivisionError, and a stream without frames returns empty lists; no other product
  raises that error.  The fallback rate never enters the interval: for a reported rate of
  zero or less whose interval is not zero, the frames are chosen by the interval of the
  reported rate and only the time stamps are divided by 30.
\<close>

theorem zero_interval_raises:
  "(float_mul (prop_fps cap) sample_rate = Fin p \<and> - 1 < p \<and> p < 1 \<longrightarrow>
      py_int p = 0 \<and>
      extract_frames cvt enc cap sample_rate =
        (if decoded_frames cap = [] then
           Inr ([], [], [],
                \<lparr>md_fps = prop_fps cap,
                 md_duration = (if prop_fps cap > 0
                                then float_div (int_to_float (py_int (prop_frame_count cap)))
                                       (prop_fps cap)
                                else Fin 0),
                 md_total_frames = py_int (prop_frame_count cap),
                 md_frame_interval = 0\<rparr>, [])
         else Inl ZeroDivisionError)) \<and>
   (float_mul (prop_fps cap) sample_rate = Fin p \<and>
    extract_frames cvt enc cap sample_rate = Inl ZeroDivisionError \<longrightarrow>
      - 1 < p \<and> p < 1 \<and> decoded_frames cap \<noteq> []) \<and>
   (float_mul (prop_fps cap) sample_rate = Fin p \<and> prop_fps cap \<le> 0 \<and> py_int p \<noteq> 0 \<longrightarrow>
      extract_frames cvt enc cap sample_rate =
        Inr (map (\<lambda>i. enc (decoded_frames cap ! nat i))
               (kept_indices (py_int p) (length (decoded_frames cap))),
             map (\<lambda>i. float_div (int_to_float i) 30)
               (kept_indices (py_int p) (length (decoded_frames cap))),
             map (\<lambda>i. cvt (decoded_frames cap ! nat i))
               (kept_indices (py_int p) (length (decoded_frames cap))),
             \<lparr>md_fps = prop_fps cap, md_duration = Fin 0,
              md_total_frames = py_int (prop_frame_count cap),
              md_frame_interval = py_int p\<rparr>,
             kept_indices (py_int p) (length (decoded_frames cap))))"
proof (intro conjI impI)
  assume a: "float_mul (prop_fps cap) sample_rate = Fin p \<and> - 1 < p \<and> p < 1"
  then show z: "py_int p = 0"
    by (simp add: py_int_zero_iff)
  from a have fm: "float_mul (prop_fps cap) sample_rate = Fin p" by simp
  show "extract_frames cvt enc cap sample_rate =
        (if decoded_frames cap = [] then
           Inr ([], [], [],
                \<lparr>md_fps = prop_fps cap,
                 md_duration = (if prop_fps cap > 0
                                then float_div (int_to_float (py_int (prop_frame_count cap)))
                                       (prop_fps cap)
                                else Fin 0),
                 md_total_frames = py_int (prop_frame_count cap),
                 md_frame_interval = 0\<rparr>, [])
         else Inl ZeroDivisionError)"
    by (simp add: extract_frames_eq [OF fm] z kept_indices_def)
next
  assume b: "float_mul (prop_fps cap) sample_rate = Fin p \<and>
             extract_frames cvt enc cap sample_rate = Inl ZeroDivisionError"
  then have fm: "float_mul (prop_fps cap) sample_rate = Fin p" by simp
  from b have "py_int p = 0 \<and> decoded_frames cap \<noteq> []"
    unfolding extract_frames_eq [OF fm] by (simp split: if_splits)
  then have r: "(- 1 < p \<and> p < 1) \<and> decoded_frames cap \<noteq> []"
    by (simp add: py_int_zero_iff)
  from r show "- 1 < p" by simp
  from r show "p < 1" by simp
  from r show "decoded_frames cap \<noteq> []" by simp
next
  assume c: "float_mul (prop_fps cap) sample_rate = Fin p \<and> prop_fps cap \<le> 0 \<and> py_int p \<noteq> 0"
  then have fm: "float_mul (prop_fps cap) sample_rate = Fin p" by simp
  from c show "extract_frames cvt enc cap sample_rate =
        Inr (map (\<lambda>i. enc (decoded_frames cap ! nat i))
               (kept_indices (py_int p) (length (decoded_frames cap))),
             map (\<lambda>i. float_div (int_to_float i) 30)
               (kept_indices (py_int p) (length (decoded_frames cap))),
             map (\<lambda>i. cvt (decoded_frames cap ! nat i))
               (kept_indices (py_int p) (length (decoded_frames cap))),
             \<lparr>md_fps = prop_fps cap, md_duration = Fin 0,
              md_total_frames = py_int (prop_frame_count cap),
              md_frame_interval = py_int p\<rparr>,
             kept_indices (py_int p) (length (decoded_frames cap)))"
    by (simp add: extract_frames_eq [OF fm])
qed

theorem zero_interval_raises_witness:
  "float_mul (prop_fps zero_fps_capture) 2 = Fin 0 \<and> - 1 < (0::rat) \<and> (0::rat) < 1 \<and>
   extract_frames id digits zero_fps_capture 2 = Inl ZeroDivisionError \<and>
   float_mul (prop_fps negative_fps_capture) 1 = Fin (- 1) \<and>
   prop_fps negative_fps_capture \<le> 0 \<and> py_int (- 1) \<noteq> 0 \<and>
   extract_frames id digits negative_fps_capture 1 =
     Inr ([''10'', ''11'', ''12''],
          [Fin 0, Fin (4803839602528529 / 144115188075855872),
           Fin (4803839602528529 / 72057594037927936)],
          [10, 11, 12],
          \<lparr>md_fps = - 1, md_duration = Fin 0, md_total_frames = 3, md_frame_interval = - 1\<rparr>,
          [0, 1, 2])"
proof -
  have fz: "float_mul (prop_fps zero_fps_capture) 2 = Fin 0"
    by (simp add: zero_fps_capture_def float_mul_def fl_values)
  have z: "float_mul (prop_fps zero_fps_capture) 2 = Fin 0 \<and> - 1 < (0::rat) \<and> (0::rat) < 1"
    using fz by simp
  have dz: "decoded_frames zero_fps_capture \<noteq> []"
    by (simp add: zero_fps_capture_def decoded_frames_def)
  have fn: "float_mul (prop_fps negative_fps_capture) 1 = Fin (- 1)"
    by (simp add: negative_fps_capture_def float_mul_def fl_values)
  have fi: "py_int (- 1) = - 1"
    by (simp add: py_int_def)
  have n: "float_mul (prop_fps negative_fps_capture) 1 = Fin (- 1) \<and>
           prop_fps negative_fps_capture \<le> 0 \<and> py_int (- 1) \<noteq> 0"
    using fn fi by (simp add: negative_fps_capture_def)
  have len: "length (decoded_frames negative_fps_capture) = 3"
    by (simp add: negative_fps_capture_def decoded_frames_def)
  have k: "kept_indices (- 1) 3 = [0, 1, 2]"
    by code_simp
  have dec: "decoded_frames negative_fps_capture = [10, 11, 12]"
    by (simp add: negative_fps_capture_def decoded_frames_def)
  have props: "prop_fps negative_fps_capture = - 1"
    "py_int (prop_frame_count negative_fps_capture) = 3"
    by (simp_all add: negative_fps_capture_def)
  have first: "extract_frames id digits zero_fps_capture 2 = Inl ZeroDivisionError"
    using zero_interval_raises [of zero_fps_capture 2 0 id digits] z dz by simp
  have second: "extract_frames id digits negative_fps_capture 1 =
     Inr ([''10'', ''11'', ''12''],
          [Fin 0, Fin (4803839602528529 / 144115188075855872),
           Fin (4803839602528529 / 72057594037927936)],
          [10, 11, 12],
          \<lparr>md_fps = - 1, md_duration = Fin 0, md_total_frames = 3, md_frame_interval = - 1\<rparr>,
          [0, 1, 2])"
    using zero_interval_raises [of negative_fps_capture 1 "- 1" id digits] n
    unfolding fi len k
    by (simp add: dec props digits_10_14 float_div_def int_to_float_small fl_values)
  show ?thesis using z n first second by simp
qed

text \<open>
  Claim C10 as worded covers every product below 1.  A reported rate of -1 with the
  interval of 2 seconds that \<open>main\<close> passes has the product -2 and the interval -2:
  nothing raises, and every second frame is kept.  And the product that counts is the
  double one: at 3 frames a second and the sample rate 0.3333333333333333 the exact
  product is below 1 and the double product is 1.0, so that the interval is 1 and every
  frame is kept.
\<close>

theorem negative_fps_counterexample:
  "prop_fps negative_fps_capture * 2 < 1 \<and>
   float_mul (prop_fps negative_fps_capture) 2 = Fin (- 2) \<and>
   extract_frames id digits negative_fps_capture 2 =
     Inr ([''10'', ''12''], [Fin 0, Fin (4803839602528529 / 72057594037927936)], [10, 12],
          \<lparr>md_fps = - 1, md_duration = Fin 0, md_total_frames = 3, md_frame_interval = - 2\<rparr>,
          [0, 2]) \<and>
   prop_fps third_capture * double_0_3333333333333333 < 1 \<and>
   float_mul (prop_fps third_capture) double_0_3333333333333333 = Fin 1 \<and>
   extract_frames id digits third_capture double_0_3333333333333333 =
     Inr ([''10'', ''11'', ''12''],
          [Fin 0, Fin (6004799503160661 / 18014398509481984),
           Fin (6004799503160661 / 9007199254740992)],
          [10, 11, 12],
          \<lparr>md_fps = 3, md_duration = Fin 1, md_total_frames = 3, md_frame_interval = 1\<rparr>,
          [0, 1, 2])"
proof -
  have fm: "float_mul (prop_fps negative_fps_capture) 2 = Fin (- 2)"
    by (simp add: negative_fps_capture_def float_mul_def fl_values)
  have fi: "py_int (- 2) = - 2"
    by (simp add: py_int_def)
  have len: "length (decoded_frames negative_fps_capture) = 3"
    by (simp add: negative_fps_capture_def decoded_frames_def)
  have k: "kept_indices (- 2) 3 = [0, 2]" "kept_indices 1 3 = [0, 1, 2]"
    by code_simp+
  have dec: "decoded_frames negative_fps_capture = [10, 11, 12]"
    by (simp add: negative_fps_capture_def decoded_frames_def)
  have props: "prop_fps negative_fps_capture = - 1"
    "py_int (prop_frame_count negative_fps_capture) = 3"
    by (simp_all add: negative_fps_capture_def)
  have one: "extract_frames id digits negative_fps_capture 2 =
     Inr ([''10'', ''12''], [Fin 0, Fin (4803839602528529 / 72057594037927936)], [10, 12],
          \<lparr>md_fps = - 1, md_duration = Fin 0, md_total_frames = 3, md_frame_interval = - 2\<rparr>,
          [0, 2])"
    unfolding extract_frames_eq [OF fm] fi len k
    by (simp add: dec props digits_10_14 float_div_def int_to_float_small fl_values)
  have ft: "float_mul (prop_fps third_capture) double_0_3333333333333333 = Fin 1"
    by (simp add: third_capture_def float_mul_def fl_values)
  have lt: "prop_fps third_capture * double_0_3333333333333333 < 1"
    by (simp add: third_capture_def double_0_3333333333333333_def)
  have len3: "length (decoded_frames third_capture) = 3"
    by (simp add: third_capture_def decoded_frames_def)
  have dec3: "decoded_frames third_capture = [10, 11, 12]"
    by (simp add: third_capture_def decoded_frames_def)
  have props3: "prop_fps third_capture = 3" "py_int (prop_frame_count third_capture) = 3"
    by (simp_all add: third_capture_def)
  have i1: "py_int 1 = 1" by simp
  have two: "extract_frames id digits third_capture double_0_3333333333333333 =
     Inr ([''10'', ''11'', ''12''],
          [Fin 0, Fin (6004799503160661 / 18014398509481984),
           Fin (6004799503160661 / 9007199254740992)],
          [10, 11, 12],
          \<lparr>md_fps = 3, md_duration = Fin 1, md_total_frames = 3, md_frame_interval = 1\<rparr>,
          [0, 1, 2])"
    unfolding extract_frames_eq [OF ft] i1 len3 k
    by (simp add: dec3 props3 digits_10_14 float_div_def int_to_float_small fl_values)
  from one two fm ft lt show ?thesis by (simp add: props)
qed

subsection \<open>Aggregation\<close>

lemma traverse_length: "traverse f xs = Inr ys \<Longrightarrow> length ys = length xs"
  by (induction xs arbitrary: ys) (auto split: sum.splits)

lemma build_rows_columns:
  assumes "length ns = length ts" "length fs = length ts" "length ds = length ts"
    "length obs = length ts" "length scs = length ts"
  shows "map timestamp (build_rows ns ts fs ds obs scs) = ts
       \<and> map frame_number (build_rows ns ts fs ds obs scs) = ns
       \<and> map frame_description (build_rows ns ts fs ds obs scs) = ds
       \<and> map row_objects_detected (build_rows ns ts fs ds obs scs) = obs
       \<and> map row_scene_type (build_rows ns ts fs ds obs scs) = scs"
  using assms
  by (induction ns ts fs ds obs scs rule: build_rows.induct) auto

lemma data_frame_Inr:
  assumes "data_frame ns ts pm = Inr df"
  shows "map timestamp df = ts \<and> map frame_number df = ns \<and> length pm = length ts"
proof -
  from assms obtain fs ds obs scs where
    t: "traverse formatted_time_of ts = Inr fs"
       "traverse (\<lambda>m. py_getitem m ''description'') pm = Inr ds"
       "traverse (\<lambda>m. py_getitem m ''objects_detected'') pm = Inr obs"
       "traverse (\<lambda>m. py_getitem m ''scene_type'') pm = Inr scs"
    and len: "length ns = length ts" "length ts = length pm"
    and df: "df = build_rows ns ts fs ds obs scs"
    by (auto simp: data_frame_def split: sum.splits if_splits)
  from t len have "length fs = length ts" "length ds = length ts" "length obs = length ts"
    "length scs = length ts"
    by (auto dest: traverse_length)
  with len build_rows_columns [of ns ts fs ds obs scs] df show ?thesis by simp
qed

lemma create_metadata_df_Inr:
  assumes "create_metadata_df st fm ts audio vmd ns mm = Inr mm'"
  shows "map inpoint (get_event_data mm') = ts \<and> map outpoint (get_event_data mm') = ts
       \<and> get_subtitles mm' = audio \<and> length fm = length ts"
proof -
  from assms obtain df where df: "data_frame ns ts (map parse_metadata fm) = Inr df"
    by (auto simp: create_metadata_df_def split: sum.splits)
  from data_frame_Inr [OF df] have ts: "map timestamp df = ts" and l: "length fm = length ts"
    by simp_all
  from assms df have "get_event_data mm' = map event_of_row df \<and> get_subtitles mm' = audio"
    by (auto simp: create_metadata_df_def Let_def get_event_data_def get_subtitles_def
        split: sum.splits)
  with ts l show ?thesis by (simp add: o_def event_of_row_def)
qed

lemma process_video_Inr:
  assumes "process_video client st cvt enc cap p mm = Inr mm'"
  obtains fs ts imgs vmd ns where
    "extract_frames cvt enc cap 2 = Inr (fs, ts, imgs, vmd, ns)"
    "create_metadata_df st (analyze_frames client fs ts) ts
       (extract_audio_with_translations client p) vmd ns mm = Inr mm'"
  using assms by (auto simp: process_video_def Let_def split: sum.splits)

lemma float_div_index_mono:
  assumes "0 < r" "0 \<le> i" "i \<le> j"
  shows "float_div (int_to_float i) r \<le> float_div (int_to_float j) r"
proof -
  have i: "(0::rat) \<le> of_int i" using assms(2) by simp
  have ij: "(of_int i :: rat) \<le> of_int j" using assms(3) by simp
  have a: "0 \<le> rd (of_int i)" by (rule rd_nonneg [OF i])
  have b: "rd (of_int i) \<le> rd (of_int j)" by (rule rd_mono_nonneg [OF i ij])
  from a assms(1) have c: "0 \<le> rd (of_int i) / r" by simp
  from b assms(1) have d: "rd (of_int i) / r \<le> rd (of_int j) / r"
    by (simp add: divide_right_mono)
  show ?thesis
    unfolding float_div_def int_to_float_def by (rule fl_mono_nonneg [OF c d])
qed

lemma float_div_index_nonneg:
  assumes "0 < r" "0 \<le> i"
  shows "Fin 0 \<le> float_div (int_to_float i) r"
proof -
  have "(0::rat) \<le> of_int i" using assms(2) by simp
  then have "0 \<le> rd (of_int i)" by (rule rd_nonneg)
  with assms(1) have "0 \<le> rd (of_int i) / r" by simp
  then show ?thesis
    unfolding float_div_def int_to_float_def by (rule fl_nonneg)
qed

lemma kept_indices_nonneg: "i \<in> set (kept_indices fi n) \<Longrightarrow> 0 \<le> i"
  by (auto simp: kept_indices_def)

lemma sorted_timestamps:
  assumes "0 < r"
  shows "sorted (map (\<lambda>i. float_div (int_to_float i) r) (kept_indices fi n))"
proof -
  have "sorted_wrt (\<lambda>i j. float_div (int_to_float i) r \<le> float_div (int_to_float j) r)
          (kept_indices fi n)"
  proof (rule sorted_wrt_mono_rel [OF _ sorted_kept_indices])
    fix i j
    assume "i \<in> set (kept_indices fi n)" "j \<in> set (kept_indices fi n)" "i \<le> j"
    then show "float_div (int_to_float i) r \<le> float_div (int_to_float j) r"
      using float_div_index_mono [OF assms] kept_indices_nonneg by blast
  qed
  then show ?thesis by (simp only: sorted_wrt_map)
qed

lemma extract_frames_Inr:
  assumes "extract_frames cvt enc cap sr = Inr (fs, ts, imgs, vmd, ns)"
  obtains p where "float_mul (prop_fps cap) sr = Fin p"
    and "ts = map (\<lambda>i. float_div (int_to_float i) (if prop_fps cap \<le> 0 then 30 else prop_fps cap))
                (kept_indices (py_int p) (length (decoded_frames cap)))"
    and "length fs = length (kept_indices (py_int p) (length (decoded_frames cap)))"
    and "ns = kept_indices (py_int p) (length (decoded_frames cap))"
proof (cases "float_mul (prop_fps cap) sr")
  case (Fin p)
  from assms show ?thesis
    unfolding extract_frames_eq [OF Fin]
    by (intro that [of p] Fin) (auto split: if_splits)
next
  case PosInf
  with assms extract_frames_overflow [of cap sr cvt enc] show ?thesis by simp
next
  case NegInf
  with assms extract_frames_overflow [of cap sr cvt enc] show ?thesis by simp
qed

lemma extract_frames_sorted:
  assumes "extract_frames cvt enc cap sr = Inr (fs, ts, imgs, vmd, ns)"
  shows "sorted ts \<and> length fs = length ts \<and> length ns = length ts
       \<and> (\<forall>t\<in>set ts. Fin 0 \<le> t)"
proof -
  let ?r = "if prop_fps cap \<le> 0 then 30 else prop_fps cap"
  have r: "0 < ?r" by simp
  from assms obtain p where
    ts: "ts = map (\<lambda>i. float_div (int_to_float i) ?r)
                (kept_indices (py_int p) (length (decoded_frames cap)))"
    and fs: "length fs = length (kept_indices (py_int p) (length (decoded_frames cap)))"
    and ns: "ns = kept_indices (py_int p) (length (decoded_frames cap))"
    by (rule extract_frames_Inr)
  have "\<forall>t\<in>set ts. Fin 0 \<le> t"
    unfolding ts using float_div_index_nonneg [OF r] kept_indices_nonneg by auto
  moreover have "sorted ts" unfolding ts by (rule sorted_timestamps [OF r])
  ultimately show ?thesis using fs ns ts by simp
qed

lemma digits_chars: "set (digits n) \<subseteq> set ''0123456789'' \<and> digits n \<noteq> []"
proof (induction n rule: digits.induct)
  case (1 n)
  have m: "''0123456789'' ! k \<in> set ''0123456789''" if "k < 10" for k
    using that by (intro nth_mem) simp
  show ?case
  proof (cases "n < 10")
    case True
    then show ?thesis using m [of n] by (subst (1 2) digits.simps) simp
  next
    case False
    have "n mod 10 < 10" by simp
    from m [OF this] 1 [OF False] False show ?thesis
      by (subst (1 2) digits.simps) simp
  qed
qed

lemma int_of_digits_ok:
  "set s \<subseteq> set ''0123456789'' \<Longrightarrow> \<exists>k. int_of_digits a s = Inr k"
proof (induction s arbitrary: a)
  case Nil
  then show ?case by simp
next
  case (Cons c s)
  then have "digit_val c = Some (of_char c - 48)" by (simp add: digit_val_def)
  with Cons show ?case by simp
qed

lemma lls_kv_id_ok: "\<exists>k. py_int_of_str (py_last 8 (py_str_int (int n))) = Inr k"
proof -
  have s: "py_str_int (int n) = digits n" by (simp add: py_str_int_def)
  have "0 < length (digits n)" using digits_chars [of n] by simp
  then have "0 < length (py_last 8 (digits n))" by (simp add: py_last_def)
  then have ne: "py_last 8 (digits n) \<noteq> []" by auto
  have "set (py_last 8 (digits n)) \<subseteq> set (digits n)"
    unfolding py_last_def by (rule set_drop_subset)
  with digits_chars [of n] have "set (py_last 8 (digits n)) \<subseteq> set ''0123456789''" by blast
  from int_of_digits_ok [OF this, of 0] ne show ?thesis
    by (simp add: py_int_of_str_def s)
qed

lemma timedelta_str_ok:
  assumes "Fin 0 \<le> t" "t < Fin 86400000000000"
  shows "\<exists>s. formatted_time_of t = Inr s"
proof (cases t)
  case (Fin x)
  with assms have x: "0 \<le> x" "x < 86400000000000" by (simp_all add: less_pyfloat_def)
  have f: "py_int x = \<lfloor>x\<rfloor>" using x(1) by (simp add: py_int_def)
  have lo: "0 \<le> \<lfloor>x\<rfloor>" using x(1) by simp
  have "\<lfloor>x\<rfloor> < 86400000000000" using x(2) by (simp add: floor_less_iff)
  then have "\<lfloor>x\<rfloor> \<le> 86399999999999" by simp
  then have "\<lfloor>x\<rfloor> div 86400 \<le> 86399999999999 div 86400"
    by (rule zdiv_mono1) simp
  then have hi: "\<lfloor>x\<rfloor> div 86400 \<le> 999999999" by simp
  have "0 \<le> \<lfloor>x\<rfloor> div 86400" using lo by (simp add: pos_imp_zdiv_nonneg_iff)
  with hi show ?thesis by (simp add: formatted_time_of_def Fin timedelta_str_def f Let_def)
next
  case PosInf
  with assms(2) show ?thesis by (simp add: less_pyfloat_def)
next
  case NegInf
  with assms(1) show ?thesis by simp
qed

lemma format_duration_ok:
  assumes "NegInf < d" "d < PosInf"
  shows "\<exists>s. format_duration d = Inr s"
  using assms by (cases d) (simp_all add: less_pyfloat_def Let_def)

lemma traverse_Inr_ex:
  "(\<And>x. x \<in> set xs \<Longrightarrow> \<exists>y. f x = Inr y) \<Longrightarrow> \<exists>ys. traverse f xs = Inr ys"
proof (induction xs)
  case Nil
  then show ?case by simp
next
  case (Cons x xs)
  then obtain y ys where "f x = Inr y" "traverse f xs = Inr ys" by (metis list.set_intros)
  then show ?case by simp
qed

lemma parse_analyze_frame:
  "\<exists>d ob sc. parse_metadata (analyze_frame client frame ts) =
     JDict [(''description'', d), (''objects_detected'', ob), (''scene_type'', sc)]"
  by (simp add: parse_metadata_def analyze_frame_def split: sum.splits vision_exn.splits)

lemma parsed_getitem_ok:
  assumes "m \<in> set (map parse_metadata (analyze_frames client fs ts))"
  shows "(\<exists>y. py_getitem m ''description'' = Inr y)
       \<and> (\<exists>y. py_getitem m ''objects_detected'' = Inr y)
       \<and> (\<exists>y. py_getitem m ''scene_type'' = Inr y)"
proof -
  from assms obtain frame t where "m = parse_metadata (analyze_frame client frame t)"
    by (auto simp: analyze_frames_def)
  with parse_analyze_frame [of client frame t] show ?thesis by auto
qed

lemma data_frame_completes:
  assumes "length ns = length ts" "length fs = length ts"
    and "\<forall>t\<in>set ts. Fin 0 \<le> t \<and> t < Fin 86400000000000"
  shows "\<exists>df. data_frame ns ts (map parse_metadata (analyze_frames client fs ts)) = Inr df"
proof -
  let ?pm = "map parse_metadata (analyze_frames client fs ts)"
  obtain tds where 1: "traverse formatted_time_of ts = Inr tds"
    using traverse_Inr_ex [of ts formatted_time_of] assms(3) timedelta_str_ok
    by blast
  obtain ds where 2: "traverse (\<lambda>m. py_getitem m ''description'') ?pm = Inr ds"
    using traverse_Inr_ex [of ?pm "\<lambda>m. py_getitem m ''description''"] parsed_getitem_ok
    by blast
  obtain obs where 3: "traverse (\<lambda>m. py_getitem m ''objects_detected'') ?pm = Inr obs"
    using traverse_Inr_ex [of ?pm "\<lambda>m. py_getitem m ''objects_detected''"] parsed_getitem_ok
    by blast
  obtain scs where 4: "traverse (\<lambda>m. py_getitem m ''scene_type'') ?pm = Inr scs"
    using traverse_Inr_ex [of ?pm "\<lambda>m. py_getitem m ''scene_type''"] parsed_getitem_ok
    by blast
  have "length ?pm = length ts" using assms(2) by (simp add: analyze_frames_def)
  then show ?thesis
    unfolding data_frame_def using assms(1) by (simp add: 1 2 3 4)
qed

lemma create_metadata_df_completes:
  assumes "length ns = length ts" "length fs = length ts"
    and "\<forall>t\<in>set ts. Fin 0 \<le> t \<and> t < Fin 86400000000000"
    and "NegInf < md_duration vmd" "md_duration vmd < PosInf"
  shows "\<exists>mm'. create_metadata_df st (analyze_frames client fs ts) ts audio vmd ns mm = Inr mm'"
proof -
  from data_frame_completes [OF assms(1-3)] obtain df where
    "data_frame ns ts (map parse_metadata (analyze_frames client fs ts)) = Inr df" by blast
  moreover obtain k where
    "py_int_of_str (py_last 8 (py_str_int (int (time_lls_kv_id st)))) = Inr k"
    using lls_kv_id_ok by blast
  moreover obtain s where "format_duration (md_duration vmd) = Inr s"
    using format_duration_ok [OF assms(4,5)] by blast
  ultimately show ?thesis by (simp add: create_metadata_df_def Let_def)
qed

subsection \<open>The audio stage\<close>

lemma audio_failure_eq:
  "audio_failure client p = Some e \<Longrightarrow>
   extract_audio_with_translations client p = [(''error'', Message e)]"
  by (auto simp: audio_failure_def extract_audio_with_translations_def split: sum.splits)

lemma audio_success_eq:
  assumes "audio_transcript client p = Some tr"
  shows "extract_audio_with_translations client p =
     fold (\<lambda>(lang_code, lang_name) subtitles.
             if lang_code \<noteq> detect_language client (tr_text tr) then
               AList.update lang_code
                 (Track (translated_entries client lang_name (tr_segments tr))) subtitles
             else subtitles)
       supported_languages
       [(detect_language client (tr_text tr), Track (source_entries client (tr_segments tr)))]"
  using assms
  by (auto simp: audio_transcript_def extract_audio_with_translations_def Let_def
      split: sum.splits)

lemma fold_update_map_of:
  assumes "distinct (map fst langs)"
  shows "map_of (fold (\<lambda>(c, n) subs. if c \<noteq> src then AList.update c (g n) subs else subs)
                  langs init) k =
     (if k = src then map_of init k
      else (case map_of langs k of Some n \<Rightarrow> Some (g n) | None \<Rightarrow> map_of init k))"
  using assms
proof (induction langs arbitrary: init)
  case Nil
  then show ?case by simp
next
  case (Cons a langs)
  obtain c n where a: "a = (c, n)" by (cases a)
  from Cons.prems a have d: "distinct (map fst langs)" and c: "map_of langs c = None"
    by (auto simp: map_of_eq_None_iff)
  show ?case
    using c by (simp add: a Cons.IH [OF d] update_conv' split: option.splits)
qed

lemma fold_update_keys:
  "fst ` set (fold (\<lambda>(c, n) subs. if c \<noteq> src then AList.update c (g n) subs else subs)
                langs init) =
     fst ` set init \<union> (fst ` set langs - {src})"
proof (induction langs arbitrary: init)
  case Nil
  then show ?case by simp
next
  case (Cons a langs)
  obtain c n where a: "a = (c, n)" by (cases a)
  show ?case by (auto simp: a Cons.IH dom_update)
qed

lemma distinct_supported: "distinct (map fst supported_languages)"
  by (simp add: supported_languages_def)

lemma audio_success_map_of:
  assumes "audio_transcript client p = Some tr"
  shows "map_of (extract_audio_with_translations client p) k =
     (if k = detect_language client (tr_text tr)
      then Some (Track (source_entries client (tr_segments tr)))
      else (case map_of supported_languages k of
              Some lang_name \<Rightarrow> Some (Track (translated_entries client lang_name (tr_segments tr)))
            | None \<Rightarrow> None))"
  unfolding audio_success_eq [OF assms]
  by (simp add: fold_update_map_of [OF distinct_supported] split: option.splits)

lemma audio_success_keys:
  assumes "audio_transcript client p = Some tr"
  shows "set (map fst (extract_audio_with_translations client p)) =
     set (map fst supported_languages) \<union> {detect_language client (tr_text tr)}"
  unfolding audio_success_eq [OF assms]
  by (auto simp: fold_update_keys)

lemma supported_map_of:
  "(code, lang_name) \<in> set supported_languages \<Longrightarrow>
   map_of supported_languages code = Some lang_name"
  by (rule map_of_is_SomeI [OF distinct_supported])

subsection \<open>The sample run\<close>

lemma sample_frames:
  "extract_frames id digits one_fps_capture 2 =
     Inr ([''10'', ''12'', ''14''], [Fin 0, Fin 2, Fin 4], [10, 12, 14],
          \<lparr>md_fps = 1, md_duration = Fin 5, md_total_frames = 5, md_frame_interval = 2\<rparr>,
          [0, 2, 4])"
proof -
  have fm: "float_mul (prop_fps one_fps_capture) 2 = Fin 2"
    by (simp add: one_fps_capture_def float_mul_def fl_values)
  have fi: "py_int 2 = 2" by simp
  have len: "length (decoded_frames one_fps_capture) = 5"
    by (simp add: one_fps_capture_def decoded_frames_def)
  have k: "kept_indices 2 5 = [0, 2, 4]"
    by code_simp
  have dec: "decoded_frames one_fps_capture = [10, 11, 12, 13, 14]"
    by (simp add: one_fps_capture_def decoded_frames_def)
  have props: "prop_fps one_fps_capture = 1" "py_int (prop_frame_count one_fps_capture) = 5"
    by (simp_all add: one_fps_capture_def)
  show ?thesis
    unfolding extract_frames_eq [OF fm] fi len k
    by (simp add: dec props digits_10_14 float_div_def int_to_float_small fl_values)
qed

lemma sample_vision:
  "vision_parse working_services = demo_vision" "vision_parse silent_services = demo_vision"
  by (simp_all add: working_services_def silent_services_def)

lemma sample_analysis:
  assumes "vision_parse client = demo_vision"
  shows "analyze_frames client [''10'', ''12'', ''14''] [Fin 0, Fin 2, Fin 4] =
     [Dumps (JDict [(''description'', JStr ''frame 10''),
                    (''objects_detected'', JList [JStr ''desk'']),
                    (''scene_type'', JStr ''office'')]),
      Dumps (JDict [(''description'', JStr ''Error analyzing frame: timeout''),
                    (''objects_detected'', JList []),
                    (''scene_type'', JStr ''error'')]),
      Dumps (JDict [(''description'', JStr ''frame 14''),
                    (''objects_detected'', JList [JStr ''desk'']),
                    (''scene_type'', JStr ''office'')])]"
  by (simp add: analyze_frames_def analyze_frame_def assms demo_vision_def)

lemma sample_timedelta:
  "formatted_time_of (Fin 0) = Inr ''0:00:00''" "formatted_time_of (Fin 2) = Inr ''0:00:02''"
  "formatted_time_of (Fin 4) = Inr ''0:00:04''"
  by (simp_all add: formatted_time_of_def timedelta_str_def py_str_int_def fmt02d_def
      digits.simps)

lemma sample_data_frame:
  assumes "vision_parse client = demo_vision"
  shows "data_frame [0, 2, 4] [Fin 0, Fin 2, Fin 4]
           (map parse_metadata (analyze_frames client [''10'', ''12'', ''14''] [Fin 0, Fin 2, Fin 4])) =
         Inr sample_rows"
  unfolding sample_analysis [OF assms]
  by (simp add: data_frame_def parse_metadata_def sample_timedelta sample_rows_def)

lemma sample_identifiers:
  "py_int_of_str (py_last 8 (py_str_int (int (time_lls_kv_id demo_stamps)))) = Inr 0"
  "py_last 2 (py_str_int (int (time_clip_name demo_stamps))) = ''00''"
  "py_str_int (int (time_clip_title demo_stamps)) = ''1700000000''"
  "py_str_int (int (time_index demo_stamps)) = ''1700000001''"
  by (simp_all add: demo_stamps_def py_int_of_str_def py_last_def py_str_int_def digits.simps
      digit_val_def)

lemma sample_duration: "format_duration (Fin 5) = Inr ''00:00:05:00''"
proof -
  have a: "(0::rat) \<le> 5" "(5::rat) < 360000" by simp_all
  have z: "rd (frac (5::rat) * 24) = 0" by (simp add: frac_def rd_def)
  show ?thesis
    unfolding format_duration_fields [OF a] z
    by (simp add: fmt02d_def digits.simps)
qed

lemma sample_aggregate:
  assumes "vision_parse client = demo_vision"
  shows "create_metadata_df demo_stamps
           (analyze_frames client [''10'', ''12'', ''14''] [Fin 0, Fin 2, Fin 4])
           [Fin 0, Fin 2, Fin 4] audio_data
           \<lparr>md_fps = 1, md_duration = Fin 5, md_total_frames = 5, md_frame_interval = 2\<rparr>
           [0, 2, 4] MetadataManager_init =
         Inr (sample_record audio_data)"
  unfolding create_metadata_df_def sample_data_frame [OF assms]
  by (simp add: sample_identifiers sample_duration sample_record_def sample_events_def
      sample_rows_def event_of_row_def MetadataManager_init_def del: format_duration.simps)
     (simp add: demo_stamps_def)

lemma sample_run:
  assumes "vision_parse client = demo_vision"
  shows "process_video client demo_stamps id digits one_fps_capture p MetadataManager_init =
         Inr (sample_record (extract_audio_with_translations client p))"
  by (simp add: process_video_def sample_frames sample_aggregate [OF assms])

lemma sample_audio_silent:
  "audio_failure silent_services p = Some ''no audio track''"
  "audio_transcript silent_services p = None"
  by (simp_all add: audio_failure_def audio_transcript_def silent_services_def
      working_services_def)

lemma sample_audio_working:
  "audio_transcript working_services p = Some demo_transcript"
  "detect_language working_services (tr_text demo_transcript) = ''en-US''"
  by (simp_all add: audio_transcript_def working_services_def detect_language_def
      ascii_strip_def is_space_def)

lemma sample_record_events:
  "get_event_data (sample_record a) = sample_events"
  "get_subtitles (sample_record a) = a"
  by (simp_all add: get_event_data_def get_subtitles_def sample_record_def)

lemma sample_subtitles_eq:
  "extract_audio_with_translations working_services p = sample_subtitles"
  by code_simp

lemma silent_subtitles_eq:
  "extract_audio_with_translations silent_services p = [(''error'', Message ''no audio track'')]"
  by (rule audio_failure_eq [OF sample_audio_silent(1)])

subsection \<open>The claims on analysis, audio and aggregation\<close>

lemma analyze_frame_failure:
  "vision_parse client frame ts = Inl e \<Longrightarrow>
   analyze_frame client frame ts =
     Dumps (JDict [(''description'',
                     JStr (case e of
                             LengthFinishReasonError \<Rightarrow> ''Error: Response exceeded token limit''
                           | OtherException msg \<Rightarrow> ''Error analyzing frame: '' @ msg)),
                   (''objects_detected'', JList []),
                   (''scene_type'', JStr ''error'')])"
  by (cases e) (simp_all add: analyze_frame_def)

text \<open>
  Claim C2.  Whatever exception the vision call raises for a frame, \<open>analyze_frame\<close>
  returns the JSON text of a dict whose scene type is \<open>error\<close> and whose list of
  detected objects is empty.  The loop over the frames yields one result for every pair
  of a frame and its time stamp, each being the analysis of that frame alone, so that a
  failure at one frame leaves the results of the others as they are.
\<close>

theorem analysis_failure_is_sentinel:
  "(vision_parse client frame ts = Inl e \<longrightarrow>
      analyze_frame client frame ts =
        Dumps (JDict [(''description'',
                        JStr (case e of
                                LengthFinishReasonError \<Rightarrow> ''Error: Response exceeded token limit''
                              | OtherException msg \<Rightarrow> ''Error analyzing frame: '' @ msg)),
                      (''objects_detected'', JList []),
                      (''scene_type'', JStr ''error'')]) \<and>
      is_sentinel (analyze_frame client frame ts)) \<and>
   length (analyze_frames client frames timestamps) = min (length frames) (length timestamps) \<and>
   (\<forall>i. i < length frames \<and> i < length timestamps \<longrightarrow>
      analyze_frames client frames timestamps ! i =
        analyze_frame client (frames ! i) (timestamps ! i))"
  by (auto simp: analyze_frame_failure is_sentinel_def analyze_frames_def)

theorem analysis_failure_is_sentinel_witness:
  "vision_parse working_services ''12'' (Fin 2) = Inl (OtherException ''timeout'') \<and>
   analyze_frame working_services ''12'' (Fin 2) =
     Dumps (JDict [(''description'', JStr ''Error analyzing frame: timeout''),
                   (''objects_detected'', JList []),
                   (''scene_type'', JStr ''error'')]) \<and>
   is_sentinel (analyze_frame working_services ''12'' (Fin 2)) \<and>
   length (analyze_frames working_services [''10'', ''12'', ''14''] [Fin 0, Fin 2, Fin 4]) = 3 \<and>
   analyze_frames working_services [''10'', ''12'', ''14''] [Fin 0, Fin 2, Fin 4] ! 2 =
     analyze_frame working_services ''14'' (Fin 4)"
proof -
  have v: "vision_parse working_services ''12'' (Fin 2) = Inl (OtherException ''timeout'')"
    by (simp add: sample_vision demo_vision_def)
  from analysis_failure_is_sentinel
    [of working_services "''12''" "Fin 2" "OtherException ''timeout''" "[''10'', ''12'', ''14'']"
       "[Fin 0, Fin 2, Fin 4]"]
  show ?thesis using v by (simp add: is_sentinel_def)
qed

text \<open>
  Claim C3.  When the extraction of the audio track or the transcription raises, with
  the message \<open>e\<close>, the audio stage returns the mapping whose only entry is the key
  \<open>error\<close> with \<open>e\<close>, and raises nothing.  A run whose frames were sampled, with time
  stamps below the 999999999 days a timedelta can hold and a duration that is a finite
  double, then finishes its aggregation: the record has one event for each sampled frame,
  at the frame's time stamp, and its subtitle mapping is that failure marker, which holds
  no subtitle track.
\<close>

theorem audio_failure_is_contained:
  assumes "audio_failure client p = Some e"
  shows "extract_audio_with_translations client p = [(''error'', Message e)] \<and>
         subtitle_tracks (extract_audio_with_translations client p) = [] \<and>
         (extract_frames cvt enc cap 2 = Inr (fs, ts, imgs, vmd, ns) \<and>
          (\<forall>t\<in>set ts. t < Fin 86400000000000) \<and>
          NegInf < md_duration vmd \<and> md_duration vmd < PosInf \<longrightarrow>
            (\<exists>mm'. process_video client st cvt enc cap p mm = Inr mm' \<and>
                   get_subtitles mm' = [(''error'', Message e)] \<and>
                   subtitle_tracks (get_subtitles mm') = [] \<and>
                   map inpoint (get_event_data mm') = ts \<and>
                   length (get_event_data mm') = length fs))"
proof (intro conjI impI)
  show a: "extract_audio_with_translations client p = [(''error'', Message e)]"
    by (rule audio_failure_eq [OF assms])
  then show "subtitle_tracks (extract_audio_with_translations client p) = []"
    by (simp add: subtitle_tracks_def)
  assume h: "extract_frames cvt enc cap 2 = Inr (fs, ts, imgs, vmd, ns) \<and>
          (\<forall>t\<in>set ts. t < Fin 86400000000000) \<and>
          NegInf < md_duration vmd \<and> md_duration vmd < PosInf"
  then have ex: "extract_frames cvt enc cap 2 = Inr (fs, ts, imgs, vmd, ns)" by simp
  from extract_frames_sorted [OF ex] h
  have l: "length ns = length ts" "length fs = length ts"
    and b: "\<forall>t\<in>set ts. Fin 0 \<le> t \<and> t < Fin 86400000000000"
    and d: "NegInf < md_duration vmd" "md_duration vmd < PosInf"
    by auto
  from create_metadata_df_completes [OF l b d] obtain mm' where
    c: "create_metadata_df st (analyze_frames client fs ts) ts
          [(''error'', Message e)] vmd ns mm = Inr mm'"
    by blast
  then have pv: "process_video client st cvt enc cap p mm = Inr mm'"
    by (simp add: process_video_def ex a)
  from create_metadata_df_Inr [OF c] l
  have "get_subtitles mm' = [(''error'', Message e)]"
    "map inpoint (get_event_data mm') = ts" "length (get_event_data mm') = length fs"
    by (auto dest: arg_cong [where f = length])
  with pv show "\<exists>mm'. process_video client st cvt enc cap p mm = Inr mm' \<and>
                   get_subtitles mm' = [(''error'', Message e)] \<and>
                   subtitle_tracks (get_subtitles mm') = [] \<and>
                   map inpoint (get_event_data mm') = ts \<and>
                   length (get_event_data mm') = length fs"
    by (auto simp: subtitle_tracks_def)
qed

theorem audio_failure_is_contained_witness:
  "audio_failure silent_services ''v.mp4'' = Some ''no audio track'' \<and>
   extract_audio_with_translations silent_services ''v.mp4'' =
     [(''error'', Message ''no audio track'')] \<and>
   extract_frames id digits one_fps_capture 2 =
     Inr ([''10'', ''12'', ''14''], [Fin 0, Fin 2, Fin 4], [10, 12, 14],
          \<lparr>md_fps = 1, md_duration = Fin 5, md_total_frames = 5, md_frame_interval = 2\<rparr>,
          [0, 2, 4]) \<and>
   process_video silent_services demo_stamps id digits one_fps_capture ''v.mp4''
     MetadataManager_init =
     Inr (sample_record [(''error'', Message ''no audio track'')]) \<and>
   get_subtitles (sample_record [(''error'', Message ''no audio track'')]) =
     [(''error'', Message ''no audio track'')] \<and>
   subtitle_tracks (get_subtitles (sample_record [(''error'', Message ''no audio track'')])) = [] \<and>
   map inpoint (get_event_data (sample_record [(''error'', Message ''no audio track'')])) =
     [Fin 0, Fin 2, Fin 4] \<and>
   length (get_event_data (sample_record [(''error'', Message ''no audio track'')])) = 3"
proof -
  have b: "\<forall>t\<in>set [Fin 0, Fin 2, Fin 4]. t < Fin 86400000000000"
    by (simp add: less_pyfloat_def)
  have d: "NegInf < Fin 5" "Fin 5 < PosInf" by (simp_all add: less_pyfloat_def)
  have r: "process_video silent_services demo_stamps id digits one_fps_capture ''v.mp4''
     MetadataManager_init = Inr (sample_record [(''error'', Message ''no audio track'')])"
    using sample_run [OF sample_vision(2), of "''v.mp4''"] by (simp add: silent_subtitles_eq)
  from audio_failure_is_contained [OF sample_audio_silent(1), of "''v.mp4''" id digits
      one_fps_capture "[''10'', ''12'', ''14'']" "[Fin 0, Fin 2, Fin 4]" "[10, 12, 14]"
      "\<lparr>md_fps = 1, md_duration = Fin 5, md_total_frames = 5, md_frame_interval = 2\<rparr>"
      "[0, 2, 4]" demo_stamps MetadataManager_init]
  show ?thesis using sample_frames b d r sample_audio_silent(1) by auto
qed

text \<open>
  Claim C4 as the code has it.  In the record of a run whose audio stage succeeded, the
  keys of the subtitle mapping are supported language codes or the detected source
  language.  In the record of a run whose audio stage failed, the subtitle mapping has
  the single key \<open>error\<close>.
\<close>

theorem subtitle_keys:
  assumes "process_video client st cvt enc cap p mm = Inr mm'"
  shows "(audio_transcript client p = Some tr \<longrightarrow>
            set (get_subtitle_languages mm') \<subseteq>
              set (map fst supported_languages) \<union> {detect_language client (tr_text tr)}) \<and>
         (audio_failure client p = Some e \<longrightarrow> get_subtitle_languages mm' = [''error''])"
proof -
  from assms obtain fs ts imgs vmd ns where
    "create_metadata_df st (analyze_frames client fs ts) ts
       (extract_audio_with_translations client p) vmd ns mm = Inr mm'"
    by (rule process_video_Inr)
  from create_metadata_df_Inr [OF this]
  have "get_subtitles mm' = extract_audio_with_translations client p" by simp
  then have k: "get_subtitle_languages mm' = map fst (extract_audio_with_translations client p)"
    by (simp add: get_subtitle_languages_def)
  show ?thesis
  proof (intro conjI impI)
    assume "audio_transcript client p = Some tr"
    from audio_success_keys [OF this] k
    show "set (get_subtitle_languages mm') \<subseteq>
              set (map fst supported_languages) \<union> {detect_language client (tr_text tr)}"
      by simp
  next
    assume "audio_failure client p = Some e"
    from audio_failure_eq [OF this] k show "get_subtitle_languages mm' = [''error'']"
      by simp
  qed
qed

theorem subtitle_keys_witness:
  "process_video working_services demo_stamps id digits one_fps_capture ''v.mp4''
     MetadataManager_init = Inr (sample_record sample_subtitles) \<and>
   audio_transcript working_services ''v.mp4'' = Some demo_transcript \<and>
   set (get_subtitle_languages (sample_record sample_subtitles)) \<subseteq>
     set (map fst supported_languages) \<union> {detect_language working_services (tr_text demo_transcript)} \<and>
   process_video silent_services demo_stamps id digits one_fps_capture ''v.mp4''
     MetadataManager_init = Inr (sample_record [(''error'', Message ''no audio track'')]) \<and>
   audio_failure silent_services ''v.mp4'' = Some ''no audio track'' \<and>
   get_subtitle_languages (sample_record [(''error'', Message ''no audio track'')]) = [''error'']"
proof -
  have w: "process_video working_services demo_stamps id digits one_fps_capture ''v.mp4''
     MetadataManager_init = Inr (sample_record sample_subtitles)"
    using sample_run [OF sample_vision(1), of "''v.mp4''"] by (simp add: sample_subtitles_eq)
  have s: "process_video silent_services demo_stamps id digits one_fps_capture ''v.mp4''
     MetadataManager_init = Inr (sample_record [(''error'', Message ''no audio track'')])"
    using sample_run [OF sample_vision(2), of "''v.mp4''"] by (simp add: silent_subtitles_eq)
  from subtitle_keys [OF w, of demo_transcript] subtitle_keys [OF s, of _ "''no audio track''"]
  show ?thesis using w s sample_audio_working(1) sample_audio_silent(1) by simp
qed

text \<open>
  Claim C4 as worded fails on the run of a video without an audio track: no language is
  detected, and the subtitle mapping of the record has the key \<open>error\<close>, which is no
  supported language code.
\<close>

theorem error_key_counterexample:
  "process_video silent_services demo_stamps id digits one_fps_capture ''v.mp4''
     MetadataManager_init = Inr (sample_record [(''error'', Message ''no audio track'')]) \<and>
   get_subtitle_languages (sample_record [(''error'', Message ''no audio track'')]) = [''error''] \<and>
   ''error'' \<notin> set (map fst supported_languages) \<and>
   audio_transcript silent_services ''v.mp4'' = None"
proof -
  have s: "process_video silent_services demo_stamps id digits one_fps_capture ''v.mp4''
     MetadataManager_init = Inr (sample_record [(''error'', Message ''no audio track'')])"
    using sample_run [OF sample_vision(2), of "''v.mp4''"] by (simp add: silent_subtitles_eq)
  then show ?thesis
    by (simp add: get_subtitle_languages_def sample_record_events sample_audio_silent
        supported_languages_def)
qed

text \<open>
  Claim C5.  After a successful audio stage, every key of the subtitle mapping other
  than the source language is a supported language code, and its track has as many
  entries as the source track and the same pair of \<open>inpoint\<close> and \<open>outpoint\<close> at every
  position.  Where the translation of a segment raises, the entry keeps the text of the
  source segment.
\<close>

theorem translated_tracks_aligned:
  assumes "audio_transcript client p = Some tr"
    and "code \<in> set (map fst (extract_audio_with_translations client p))"
    and "code \<noteq> detect_language client (tr_text tr)"
  shows "\<exists>lang_name.
           (code, lang_name) \<in> set supported_languages \<and>
           track_of (extract_audio_with_translations client p)
             (detect_language client (tr_text tr)) =
             Some (source_entries client (tr_segments tr)) \<and>
           track_of (extract_audio_with_translations client p) code =
             Some (translated_entries client lang_name (tr_segments tr)) \<and>
           length (translated_entries client lang_name (tr_segments tr)) =
             length (source_entries client (tr_segments tr)) \<and>
           boundaries (translated_entries client lang_name (tr_segments tr)) =
             boundaries (source_entries client (tr_segments tr)) \<and>
           (\<forall>i e. i < length (tr_segments tr) \<and>
                chat_translate client (seg_text (tr_segments tr ! i)) lang_name = Inl e \<longrightarrow>
                sub_text (translated_entries client lang_name (tr_segments tr) ! i) =
                  sub_text (source_entries client (tr_segments tr) ! i))"
proof -
  from assms(2,3) audio_success_keys [OF assms(1)]
  have "code \<in> set (map fst supported_languages)" by auto
  then obtain lang_name where m: "(code, lang_name) \<in> set supported_languages" by auto
  from assms(3) supported_map_of [OF m] have
    "track_of (extract_audio_with_translations client p)
             (detect_language client (tr_text tr)) =
             Some (source_entries client (tr_segments tr)) \<and>
           track_of (extract_audio_with_translations client p) code =
             Some (translated_entries client lang_name (tr_segments tr)) \<and>
           length (translated_entries client lang_name (tr_segments tr)) =
             length (source_entries client (tr_segments tr)) \<and>
           boundaries (translated_entries client lang_name (tr_segments tr)) =
             boundaries (source_entries client (tr_segments tr)) \<and>
           (\<forall>i e. i < length (tr_segments tr) \<and>
                chat_translate client (seg_text (tr_segments tr ! i)) lang_name = Inl e \<longrightarrow>
                sub_text (translated_entries client lang_name (tr_segments tr) ! i) =
                  sub_text (source_entries client (tr_segments tr) ! i))"
    by (simp add: track_of_def audio_success_map_of [OF assms(1)] translated_entries_def
        source_entries_def boundaries_def translate_text_def o_def)
  with m show ?thesis by blast
qed

theorem translated_tracks_aligned_witness:
  "audio_transcript working_services ''v.mp4'' = Some demo_transcript \<and>
   ''ta-IN'' \<in> set (map fst (extract_audio_with_translations working_services ''v.mp4'')) \<and>
   ''ta-IN'' \<noteq> detect_language working_services (tr_text demo_transcript) \<and>
   chat_translate working_services (seg_text (tr_segments demo_transcript ! 0)) ''Tamil'' =
     Inl ''rate limit'' \<and>
   track_of (extract_audio_with_translations working_services ''v.mp4'') ''en-US'' =
     Some [\<lparr>sub_inpoint = ''0.0'', sub_outpoint = ''1.5'', sub_text = ''hello''\<rparr>,
           \<lparr>sub_inpoint = ''1.5'', sub_outpoint = ''3.0'', sub_text = ''world''\<rparr>] \<and>
   track_of (extract_audio_with_translations working_services ''v.mp4'') ''ta-IN'' =
     Some [\<lparr>sub_inpoint = ''0.0'', sub_outpoint = ''1.5'', sub_text = ''hello''\<rparr>,
           \<lparr>sub_inpoint = ''1.5'', sub_outpoint = ''3.0'', sub_text = ''world''\<rparr>] \<and>
   boundaries (translated_entries working_services ''Tamil'' (tr_segments demo_transcript)) =
     boundaries (source_entries working_services (tr_segments demo_transcript)) \<and>
   sub_text (translated_entries working_services ''Tamil'' (tr_segments demo_transcript) ! 0) =
     sub_text (source_entries working_services (tr_segments demo_transcript) ! 0)"
proof -
  have k: "''ta-IN'' \<in> set (map fst (extract_audio_with_translations working_services ''v.mp4''))"
    by (simp add: sample_subtitles_eq sample_subtitles_def)
  have n: "''ta-IN'' \<noteq> detect_language working_services (tr_text demo_transcript)"
    by (simp add: sample_audio_working)
  have f: "chat_translate working_services (seg_text (tr_segments demo_transcript ! 0)) ''Tamil'' =
     Inl ''rate limit''"
    by (simp add: working_services_def demo_translate_def)
  have l: "0 < length (tr_segments demo_transcript)" by (simp add: demo_transcript_def)
  have se: "source_entries working_services (tr_segments demo_transcript) =
     [\<lparr>sub_inpoint = ''0.0'', sub_outpoint = ''1.5'', sub_text = ''hello''\<rparr>,
      \<lparr>sub_inpoint = ''1.5'', sub_outpoint = ''3.0'', sub_text = ''world''\<rparr>]"
    by code_simp
  have te: "translated_entries working_services ''Tamil'' (tr_segments demo_transcript) =
     [\<lparr>sub_inpoint = ''0.0'', sub_outpoint = ''1.5'', sub_text = ''hello''\<rparr>,
      \<lparr>sub_inpoint = ''1.5'', sub_outpoint = ''3.0'', sub_text = ''world''\<rparr>]"
    by code_simp
  from translated_tracks_aligned [OF sample_audio_working(1) k n]
  obtain lang_name where
    "(''ta-IN'', lang_name) \<in> set supported_languages"
    and t: "track_of (extract_audio_with_translations working_services ''v.mp4'')
         (detect_language working_services (tr_text demo_transcript)) =
         Some (source_entries working_services (tr_segments demo_transcript))"
      "track_of (extract_audio_with_translations working_services ''v.mp4'') ''ta-IN'' =
         Some (translated_entries working_services lang_name (tr_segments demo_transcript))"
    by blast
  then have "lang_name = ''Tamil''" by (auto simp: supported_languages_def)
  with t show ?thesis using k n f l sample_audio_working by (simp add: se te)
qed

text \<open>
  Claim C7.  The events of a record that \<open>create_metadata_df\<close> returns have, in order,
  the given time stamps as \<open>inpoint\<close> and as \<open>outpoint\<close>; when the time stamps are
  sorted, so are the events by \<open>inpoint\<close>.  In a whole run the time stamps are those of
  \<open>extract_frames\<close>, which are sorted, so the events of its record are.
\<close>

theorem events_follow_timestamps:
  "(create_metadata_df st fm ts audio vmd ns mm = Inr mm' \<and> sorted ts \<longrightarrow>
      map inpoint (get_event_data mm') = ts \<and> map outpoint (get_event_data mm') = ts \<and>
      sorted (map inpoint (get_event_data mm'))) \<and>
   (process_video client st cvt enc cap p mm = Inr mm'' \<and>
    extract_frames cvt enc cap 2 = Inr (fs, tss, imgs, vmd', ns') \<longrightarrow>
      map inpoint (get_event_data mm'') = tss \<and> map outpoint (get_event_data mm'') = tss \<and>
      sorted (map inpoint (get_event_data mm'')))"
proof (intro conjI impI)
  assume a: "create_metadata_df st fm ts audio vmd ns mm = Inr mm' \<and> sorted ts"
  then show "map inpoint (get_event_data mm') = ts" "map outpoint (get_event_data mm') = ts"
    "sorted (map inpoint (get_event_data mm'))"
    using create_metadata_df_Inr [of st fm ts audio vmd ns mm mm'] by simp_all
next
  assume b: "process_video client st cvt enc cap p mm = Inr mm'' \<and>
    extract_frames cvt enc cap 2 = Inr (fs, tss, imgs, vmd', ns')"
  then have c: "create_metadata_df st (analyze_frames client fs tss) tss
       (extract_audio_with_translations client p) vmd' ns' mm = Inr mm''"
    by (auto elim!: process_video_Inr)
  from b have s: "sorted tss" using extract_frames_sorted by blast
  from create_metadata_df_Inr [OF c] s
  show "map inpoint (get_event_data mm'') = tss" "map outpoint (get_event_data mm'') = tss"
    "sorted (map inpoint (get_event_data mm''))"
    by simp_all
qed

theorem events_follow_timestamps_witness:
  "create_metadata_df demo_stamps
     (analyze_frames working_services [''10'', ''12'', ''14''] [Fin 0, Fin 2, Fin 4])
     [Fin 0, Fin 2, Fin 4] []
     \<lparr>md_fps = 1, md_duration = Fin 5, md_total_frames = 5, md_frame_interval = 2\<rparr>
     [0, 2, 4] MetadataManager_init = Inr (sample_record []) \<and>
   sorted [Fin 0, Fin 2, Fin 4] \<and>
   map inpoint (get_event_data (sample_record [])) = [Fin 0, Fin 2, Fin 4] \<and>
   process_video working_services demo_stamps id digits one_fps_capture ''v.mp4''
     MetadataManager_init = Inr (sample_record sample_subtitles) \<and>
   extract_frames id digits one_fps_capture 2 =
     Inr ([''10'', ''12'', ''14''], [Fin 0, Fin 2, Fin 4], [10, 12, 14],
          \<lparr>md_fps = 1, md_duration = Fin 5, md_total_frames = 5, md_frame_interval = 2\<rparr>,
          [0, 2, 4]) \<and>
   map inpoint (get_event_data (sample_record sample_subtitles)) = [Fin 0, Fin 2, Fin 4] \<and>
   map outpoint (get_event_data (sample_record sample_subtitles)) = [Fin 0, Fin 2, Fin 4] \<and>
   sorted (map inpoint (get_event_data (sample_record sample_subtitles)))"
proof -
  have w: "process_video working_services demo_stamps id digits one_fps_capture ''v.mp4''
     MetadataManager_init = Inr (sample_record sample_subtitles)"
    using sample_run [OF sample_vision(1), of "''v.mp4''"] by (simp add: sample_subtitles_eq)
  have s: "sorted [Fin 0, Fin 2, Fin 4]" by simp
  from events_follow_timestamps
    [where st = demo_stamps
       and fm = "analyze_frames working_services [''10'', ''12'', ''14''] [Fin 0, Fin 2, Fin 4]"
       and ts = "[Fin 0, Fin 2, Fin 4]" and audio = "[]"
       and vmd = "\<lparr>md_fps = 1, md_duration = Fin 5, md_total_frames = 5, md_frame_interval = 2\<rparr>"
       and ns = "[0, 2, 4]" and mm = MetadataManager_init and mm' = "sample_record []"
       and client = working_services and cvt = id and enc = digits and cap = one_fps_capture
       and p = "''v.mp4''" and mm'' = "sample_record sample_subtitles"
       and fs = "[''10'', ''12'', ''14'']" and tss = "[Fin 0, Fin 2, Fin 4]" and imgs = "[10, 12, 14]"
       and vmd' = "\<lparr>md_fps = 1, md_duration = Fin 5, md_total_frames = 5, md_frame_interval = 2\<rparr>"
       and ns' = "[0, 2, 4]"]
  show ?thesis
    using w s sample_frames sample_aggregate [OF sample_vision(1), of "[]"] by simp
qed

subsection \<open>Queries\<close>

text \<open>
  Claim C8.  On a processor that holds no assistant, \<open>query_assistant\<close> returns the
  message that no assistant is available, and on a manager that holds no DataFrame
  \<open>query_metadata\<close> returns the message that no metadata is available: neither raises,
  neither calls a service, and neither answer is empty.  A new processor and a new
  manager are in that state.
\<close>

theorem query_without_context:
  "query_assistant api (self\<lparr>assistant := None\<rparr>) query =
     Some ''No assistant available. Please process a video first.'' \<and>
   query_metadata chat_parse fmt_2f (mm\<lparr>metadata_df := None\<rparr>) query =
     ''No metadata available. Please process a video first.'' \<and>
   assistant VideoProcessor_init = None \<and>
   metadata_df MetadataManager_init = None"
  by (simp add: query_assistant_def query_metadata_def VideoProcessor_init_def
      MetadataManager_init_def)

end
